theory Spec2Isabelle
  imports Main "HOL-Library.AList"
begin

section \<open>Python values, errors and the external libraries\<close>

text \<open>
  The module \<^verbatim>\<open>src/experiment_utils.py\<close> is glue around scikit-learn, pandas, numpy and
  joblib.  Its own control flow is embedded below function by function; the library
  calls it makes are either parameters of the embedding (collected in the record
  \<open>extlib\<close>) or, where a property depends on what the call does, small models of the
  documented behaviour of the call (\<open>deepcopy\<close>, \<open>set_params\<close>, \<open>os.path.join\<close>,
  \<open>str.endswith\<close>, \<open>pd.DataFrame\<close> on a list of records, \<open>pd.concat\<close>).
\<close>

datatype float64 = Float int int | NaN | Infinity bool

datatype pyval =
    PNone
  | PBool bool
  | PInt int
  | PFloat float64
  | PStr string
  | PList "pyval list"
  | PTuple "pyval list"
  | PDict "(string \<times> pyval) list"
  | PFrame "(string \<times> pyval) list list"
  | PObj string "(string \<times> pyval) list"

text \<open>
  \<open>PDict\<close> is a dict with string keys in insertion order.  \<open>PFrame\<close> is a pandas
  DataFrame, kept as the list of its rows, each row a record from column name to value
  (a column that a row lacks stands for NaN).  \<open>PObj c attrs\<close> is an instance of the
  class named \<open>c\<close> with the given attributes: for a scikit-learn estimator the
  attributes are its constructor parameters, the dict that \<open>get_params()\<close> returns.
\<close>

type_synonym pydict = "(string \<times> pyval) list"
type_synonym row = "(string \<times> pyval) list"
type_synonym exc = "string \<times> string"

text \<open>
  An error carries the exception class and message, and where it comes from:
  \<open>Repo\<close> is an exception constructed by a \<^verbatim>\<open>raise\<close> statement of the repository,
  \<open>Interp\<close> is raised by the Python interpreter while it evaluates repository code
  (unbound local, bad index, bad call), \<open>Lib\<close> is propagated from a library call.
\<close>

datatype error =
    Repo string string
  | Interp string string
  | Lib string string

definition lib :: "exc + 'a \<Rightarrow> error + 'a" where
  "lib r = (case r of Inl (c, m) \<Rightarrow> Inl (Lib c m) | Inr v \<Rightarrow> Inr v)"

definition lib_err :: "exc option \<Rightarrow> error option" where
  "lib_err r = (case r of None \<Rightarrow> None | Some (c, m) \<Rightarrow> Some (Lib c m))"

record cv_results =
  test_score :: "float64 list"
  fit_time :: "float64 list"
  score_time :: "float64 list"

record search_results =
  best_score :: float64
  best_estimator :: pyval
  mean_test_score :: "float64 list"
  rank_test_score :: "int list"
  mean_fit_time :: "float64 list"
  mean_score_time :: "float64 list"

record extlib =
  cross_validate :: "pyval \<Rightarrow> pyval \<Rightarrow> pyval \<Rightarrow> exc + cv_results"
  randomized_search_fit :: "pyval \<Rightarrow> pyval \<Rightarrow> pyval \<Rightarrow> pyval \<Rightarrow> pyval \<Rightarrow> exc + search_results"
  np_mean :: "float64 list \<Rightarrow> float64"
  np_round :: "float64 \<Rightarrow> nat \<Rightarrow> float64"
  np_add :: "float64 list \<Rightarrow> float64 list \<Rightarrow> float64 list"
  py_str :: "pyval \<Rightarrow> string"
  obj_truth :: "string \<Rightarrow> pydict \<Rightarrow> exc + bool"
  select_dtypes_columns :: "pyval \<Rightarrow> string \<Rightarrow> exc + pyval"
  to_csv :: "pyval \<Rightarrow> pyval \<Rightarrow> exc option"
  joblib_dump :: "pyval \<Rightarrow> pyval \<Rightarrow> exc option"
  os_listdir :: "string \<Rightarrow> exc + string list"
  pd_read_csv :: "string \<Rightarrow> exc + pyval"
  frame_getitem :: "pyval \<Rightarrow> string list \<Rightarrow> exc + pyval"
  pd_DataFrame_other :: "pyval \<Rightarrow> exc + row list"
  iloc :: "pyval \<Rightarrow> nat list \<Rightarrow> exc + pyval"
  fit :: "pyval \<Rightarrow> pyval \<Rightarrow> pyval \<Rightarrow> exc + pyval \<times> pyval \<times> pyval"
  predict_proba :: "pyval \<Rightarrow> pyval \<Rightarrow> exc + pyval"
  column1 :: "pyval \<Rightarrow> exc + pyval"

text \<open>
  \<open>cross_validate p X y\<close> stands for
  \<^verbatim>\<open>cross_validate(p, X, y, scoring="roc_auc", cv=CV_SCHEME, n_jobs=-1)\<close>,
  \<open>randomized_search_fit p grid n_iter X y\<close> for building the \<^verbatim>\<open>RandomizedSearchCV\<close>
  of \<open>randomized_search\<close> and fitting it, \<open>select_dtypes_columns X d\<close> for
  \<^verbatim>\<open>X.select_dtypes(d).columns\<close>, \<open>frame_getitem df cols\<close> for \<^verbatim>\<open>df[cols]\<close>,
  \<open>column1 a\<close> for \<^verbatim>\<open>a[:, 1]\<close>, \<open>obj_truth\<close> for the truth value of a library object
  and \<open>py_str\<close> for the text an f-string gives a value.  \<open>to_csv\<close> and \<open>joblib_dump\<close>
  say whether the write fails; \<open>fit e X y\<close> returns the states of the estimator and
  of its two arguments after \<^verbatim>\<open>e.fit(X, y)\<close>.
\<close>

definition RANDOM_STATE :: int where
  "RANDOM_STATE = 42"

definition PARAMS_TO_SAVE :: "string list" where
  "PARAMS_TO_SAVE = [''n_estimators'', ''class_weight'', ''min_samples_leaf'',
     ''max_samples'', ''max_features'']"

definition HANDLE_MISSINGS_MODELS :: "string list" where
  "HANDLE_MISSINGS_MODELS = [''HistGradientBoostingClassifier'', ''BaggingClassifier'',
     ''BalancedBagging_OverSampling'', ''BalancedBagging_UnderSampling'']"

subsection \<open>Truth values, class names, strings and paths\<close>

fun truthy :: "'a extlib_scheme \<Rightarrow> pyval \<Rightarrow> error + bool" where
  "truthy ext PNone = Inr False"
| "truthy ext (PBool b) = Inr b"
| "truthy ext (PInt i) = Inr (i \<noteq> 0)"
| "truthy ext (PFloat f) = Inr (case f of Float m e \<Rightarrow> m \<noteq> 0 | _ \<Rightarrow> True)"
| "truthy ext (PStr s) = Inr (s \<noteq> [])"
| "truthy ext (PList xs) = Inr (xs \<noteq> [])"
| "truthy ext (PTuple xs) = Inr (xs \<noteq> [])"
| "truthy ext (PDict d) = Inr (d \<noteq> [])"
| "truthy ext (PFrame rows) =
     Inl (Lib ''ValueError'' ''The truth value of a DataFrame is ambiguous.'')"
| "truthy ext (PObj c attrs) = lib (obj_truth ext c attrs)"

fun class_name :: "pyval \<Rightarrow> string" where
  "class_name PNone = ''NoneType''"
| "class_name (PBool b) = ''bool''"
| "class_name (PInt i) = ''int''"
| "class_name (PFloat f) = ''float''"
| "class_name (PStr s) = ''str''"
| "class_name (PList xs) = ''list''"
| "class_name (PTuple xs) = ''tuple''"
| "class_name (PDict d) = ''dict''"
| "class_name (PFrame rows) = ''DataFrame''"
| "class_name (PObj c attrs) = c"

fun attrs_of :: "pyval \<Rightarrow> pydict" where
  "attrs_of (PObj c attrs) = attrs"
| "attrs_of v = []"

definition hasattr :: "pyval \<Rightarrow> string \<Rightarrow> bool" where
  "hasattr v name = (name \<in> set (map fst (attrs_of v)))"

definition getattr :: "pyval \<Rightarrow> string \<Rightarrow> error + pyval" where
  "getattr v name =
     (case map_of (attrs_of v) name of
        None \<Rightarrow> Inl (Interp ''AttributeError'' name)
      | Some x \<Rightarrow> Inr x)"

definition endswith :: "string \<Rightarrow> string \<Rightarrow> bool" where
  "endswith s suf = (length suf \<le> length s \<and> drop (length s - length suf) s = suf)"

definition startswith :: "string \<Rightarrow> string \<Rightarrow> bool" where
  "startswith s pre = (take (length pre) s = pre)"

text \<open>\<^verbatim>\<open>os.path.join(a, b)\<close> of \<^verbatim>\<open>posixpath\<close>, for two components.\<close>

definition os_path_join :: "string \<Rightarrow> string \<Rightarrow> string" where
  "os_path_join a b =
     (if startswith b ''/'' then b
      else if a = [] \<or> endswith a ''/'' then a @ b
      else a @ ''/'' @ b)"

text \<open>\<^verbatim>\<open>sep.join(parts)\<close>.\<close>

fun str_join :: "string \<Rightarrow> string list \<Rightarrow> string" where
  "str_join sep [] = []"
| "str_join sep [x] = x"
| "str_join sep (x # y # ys) = x @ sep @ str_join sep (y # ys)"

section \<open>Estimators on the heap: \<open>set_model_params\<close> and \<open>create_models\<close>\<close>

text \<open>
  \<open>create_models\<close> calls \<open>set_params\<close>, which changes the estimator it is called on
  and returns it, and \<open>deepcopy\<close>, which makes a new object.  Objects therefore live
  in a heap, a list indexed by address; a list of models is a list of addresses.
  A new object gets the address \<open>length h\<close>.
\<close>

type_synonym addr = nat
type_synonym heap = "pyval list"

text \<open>
  scikit-learn's \<^verbatim>\<open>BaseEstimator.set_params(**params)\<close> for parameters of the
  estimator itself: the keys are taken in order, a key that is not a parameter of the
  estimator raises \<^verbatim>\<open>ValueError\<close> (the keys before it stay set), any other key is
  assigned.  Nested names (\<^verbatim>\<open>step__param\<close>) are not part of this model.
\<close>

fun set_params_attrs :: "pydict \<Rightarrow> pydict \<Rightarrow> pydict \<times> error option" where
  "set_params_attrs ps [] = (ps, None)"
| "set_params_attrs ps ((k, v) # kvs) =
     (if k \<in> set (map fst ps) then set_params_attrs (AList.update k v ps) kvs
      else (ps, Some (Lib ''ValueError'' (''Invalid parameter '' @ k))))"

definition get_params :: "heap \<Rightarrow> addr \<Rightarrow> error + pydict" where
  "get_params h a =
     (case h ! a of
        PObj c ps \<Rightarrow> Inr ps
      | _ \<Rightarrow> Inl (Interp ''AttributeError'' ''get_params''))"

definition set_params :: "heap \<Rightarrow> addr \<Rightarrow> pydict \<Rightarrow> heap \<times> (error + addr)" where
  "set_params h a kvs =
     (case h ! a of
        PObj c ps \<Rightarrow>
          (case set_params_attrs ps kvs of
             (ps', None) \<Rightarrow> (h[a := PObj c ps'], Inr a)
           | (ps', Some e) \<Rightarrow> (h[a := PObj c ps'], Inl e))
      | _ \<Rightarrow> (h, Inl (Interp ''AttributeError'' ''set_params'')))"

definition deepcopy :: "heap \<Rightarrow> addr \<Rightarrow> heap \<times> addr" where
  "deepcopy h a = (h @ [h ! a], length h)"

text \<open>
  \<open>set_model_params(model, model_params)\<close>: copy, then \<^verbatim>\<open>set_params(**model_params)\<close>
  on the copy.  The \<^verbatim>\<open>**\<close> needs a mapping.
\<close>

definition set_model_params :: "heap \<Rightarrow> addr \<Rightarrow> pyval \<Rightarrow> heap \<times> (error + addr)" where
  "set_model_params h model model_params =
     (case deepcopy h model of
        (h1, model_copy) \<Rightarrow>
          (case model_params of
             PDict d \<Rightarrow>
               (case set_params h1 model_copy d of
                  (h2, Inl e) \<Rightarrow> (h2, Inl e)
                | (h2, Inr _) \<Rightarrow> (h2, Inr model_copy))
           | _ \<Rightarrow> (h1, Inl (Interp ''TypeError'' ''argument after ** must be a mapping''))))"

text \<open>The list comprehension that opens \<open>create_models\<close>.\<close>

fun init_models :: "heap \<Rightarrow> addr list \<Rightarrow> heap \<times> (error + addr list)" where
  "init_models h [] = (h, Inr [])"
| "init_models h (model # rest) =
     (case get_params h model of
        Inl e \<Rightarrow> (h, Inl e)
      | Inr ps \<Rightarrow>
          (case set_params h model
                  (if ''n_jobs'' \<in> set (map fst ps)
                   then [(''random_state'', PInt RANDOM_STATE), (''n_jobs'', PInt (- 1))]
                   else [(''random_state'', PInt RANDOM_STATE)]) of
             (h1, Inl e) \<Rightarrow> (h1, Inl e)
           | (h1, Inr m) \<Rightarrow>
               (case init_models h1 rest of
                  (h2, Inl e) \<Rightarrow> (h2, Inl e)
                | (h2, Inr ms) \<Rightarrow> (h2, Inr (m # ms)))))"

text \<open>The inner loop \<^verbatim>\<open>for param_dict in params: models.append(...)\<close>.\<close>

fun append_variants :: "heap \<Rightarrow> addr list \<Rightarrow> addr \<Rightarrow> pyval list \<Rightarrow> heap \<times> (error + addr list)" where
  "append_variants h models model [] = (h, Inr models)"
| "append_variants h models model (param_dict # rest) =
     (case set_model_params h model param_dict of
        (h1, Inl e) \<Rightarrow> (h1, Inl e)
      | (h1, Inr m) \<Rightarrow> append_variants h1 (models @ [m]) model rest)"

definition invalid_format :: string where
  "invalid_format = ''Invalid format in model_params list. Each element '' @
     ''should be either a dictionary or a list of dictionaries.''"

text \<open>
  The loop \<^verbatim>\<open>for model, params in zip(models, model_params)\<close>.  \<open>zip\<close> reads the list
  \<open>models\<close> while the body appends to it, so the \<open>i\<close>-th round takes \<open>models[i]\<close> of
  the list as it is then; the loop ends when either list is used up.
\<close>

fun create_loop :: "heap \<Rightarrow> addr list \<Rightarrow> nat \<Rightarrow> pyval list \<Rightarrow> heap \<times> (error + addr list)" where
  "create_loop h models i [] = (h, Inr models)"
| "create_loop h models i (params # rest) =
     (if i < length models then
        (case params of
           PList ds \<Rightarrow>
             (case append_variants h models (models ! i) ds of
                (h1, Inl e) \<Rightarrow> (h1, Inl e)
              | (h1, Inr models1) \<Rightarrow> create_loop h1 models1 (Suc i) rest)
         | PDict d \<Rightarrow>
             (case set_model_params h (models ! i) (PDict d) of
                (h1, Inl e) \<Rightarrow> (h1, Inl e)
              | (h1, Inr m) \<Rightarrow> create_loop h1 (models @ [m]) (Suc i) rest)
         | _ \<Rightarrow> (h, Inl (Repo ''ValueError'' invalid_format)))
      else (h, Inr models))"

definition create_models :: "heap \<Rightarrow> addr list \<Rightarrow> pyval list option \<Rightarrow> heap \<times> (error + addr list)" where
  "create_models h base_models model_params =
     (case init_models h base_models of
        (h1, Inl e) \<Rightarrow> (h1, Inl e)
      | (h1, Inr models) \<Rightarrow>
          (case model_params of
             None \<Rightarrow> (h1, Inr models)
           | Some ps \<Rightarrow> if ps = [] then (h1, Inr models) else create_loop h1 models 0 ps))"

section \<open>Result records and result tables\<close>

text \<open>\<^verbatim>\<open>make_pipeline(*steps)\<close> and \<^verbatim>\<open>make_column_transformer(*pairs)\<close> as plain objects.\<close>

definition make_pipeline :: "pyval list \<Rightarrow> pyval" where
  "make_pipeline steps = PObj ''Pipeline'' [(''steps'', PList steps)]"

definition make_column_transformer :: "(pyval \<times> pyval) list \<Rightarrow> pyval" where
  "make_column_transformer pairs =
     PObj ''ColumnTransformer''
       [(''transformers'', PList (map (\<lambda>(t, cols). PTuple [t, cols]) pairs))]"

definition cv_scores :: "'a extlib_scheme \<Rightarrow> pyval \<Rightarrow> pyval \<Rightarrow> pyval \<Rightarrow> string \<Rightarrow> string \<Rightarrow> error + row" where
  "cv_scores ext pipeline X y model_name model_params =
     (case lib (cross_validate ext pipeline X y) of
        Inl e \<Rightarrow> Inl e
      | Inr cv \<Rightarrow>
          (let roc_auc = np_round ext (np_mean ext (test_score cv)) 4;
               time = np_round ext (np_mean ext (np_add ext (fit_time cv) (score_time cv))) 2
           in Inr [(''Model'', PStr model_name),
                   (''Parameters'', PStr model_params),
                   (''ROC_AUC'', PFloat roc_auc),
                   (''Time[s]'', PFloat time)]))"

text \<open>
  One round of the loop of \<open>prepare_models_info\<close>.  The comprehension keeps the
  parameters the model has, so its \<open>getattr\<close> cannot fail.
\<close>

definition model_info :: "'a extlib_scheme \<Rightarrow> string list \<Rightarrow> pyval \<Rightarrow> error + string \<times> string" where
  "model_info ext params_to_save model =
     (case (if class_name model = ''BalancedBaggingClassifier''
            then (case getattr model ''sampler'' of
                    Inl e \<Rightarrow> Inl e
                  | Inr s \<Rightarrow>
                      Inr (if class_name s = ''RandomUnderSampler''
                           then ''BalancedBagging_UnderSampling''
                           else ''BalancedBagging_OverSampling''))
            else Inr (class_name model)) of
        Inl e \<Rightarrow> Inl e
      | Inr model_name \<Rightarrow>
          Inr (model_name,
               str_join '', ''
                 (List.map_filter
                    (\<lambda>param. case map_of (attrs_of model) param of
                                None \<Rightarrow> None
                              | Some v \<Rightarrow> Some (param @ '': '' @ py_str ext v))
                    params_to_save)))"

fun prepare_models_info :: "'a extlib_scheme \<Rightarrow> pyval list \<Rightarrow> string list \<Rightarrow> error + string list \<times> string list" where
  "prepare_models_info ext [] params_to_save = Inr ([], [])"
| "prepare_models_info ext (model # rest) params_to_save =
     (case model_info ext params_to_save model of
        Inl e \<Rightarrow> Inl e
      | Inr (model_name, model_params) \<Rightarrow>
          (case prepare_models_info ext rest params_to_save of
             Inl e \<Rightarrow> Inl e
           | Inr (names, params) \<Rightarrow> Inr (model_name # names, model_params # params)))"

definition create_preprocessor :: "'a extlib_scheme \<Rightarrow> pyval \<Rightarrow> error + pyval \<times> pyval \<times> pyval" where
  "create_preprocessor ext X =
     (case lib (select_dtypes_columns ext X ''number'') of
        Inl e \<Rightarrow> Inl e
      | Inr num_features \<Rightarrow>
          (case lib (select_dtypes_columns ext X ''object'') of
             Inl e \<Rightarrow> Inl e
           | Inr cat_features \<Rightarrow>
               Inr (num_features, cat_features,
                    make_column_transformer
                      [(PObj ''SimpleImputer''
                          [(''strategy'', PStr ''constant''), (''fill_value'', PInt (- 1))],
                        num_features),
                       (PObj ''TargetEncoder'' [(''random_state'', PInt RANDOM_STATE)],
                        cat_features)])))"

text \<open>
  \<^verbatim>\<open>pd.DataFrame(v)\<close>: a DataFrame gives its rows, a list of dicts gives one row per
  dict; what pandas does with any other value is left to \<open>pd_DataFrame_other\<close>.
\<close>

fun is_dict :: "pyval \<Rightarrow> bool" where
  "is_dict (PDict d) = True"
| "is_dict v = False"

fun is_list :: "pyval \<Rightarrow> bool" where
  "is_list (PList xs) = True"
| "is_list v = False"

fun dict_items :: "pyval \<Rightarrow> pydict" where
  "dict_items (PDict d) = d"
| "dict_items v = []"

definition pd_DataFrame :: "'a extlib_scheme \<Rightarrow> pyval \<Rightarrow> error + row list" where
  "pd_DataFrame ext v =
     (case v of
        PFrame rows \<Rightarrow> Inr rows
      | PList xs \<Rightarrow>
          if list_all is_dict xs then Inr (map dict_items xs)
          else lib (pd_DataFrame_other ext v)
      | _ \<Rightarrow> lib (pd_DataFrame_other ext v))"

fun frames_of :: "'a extlib_scheme \<Rightarrow> pyval list \<Rightarrow> error + row list list" where
  "frames_of ext [] = Inr []"
| "frames_of ext (arg # rest) =
     (case pd_DataFrame ext arg of
        Inl e \<Rightarrow> Inl e
      | Inr rows \<Rightarrow>
          (case frames_of ext rest of
             Inl e \<Rightarrow> Inl e
           | Inr fs \<Rightarrow> Inr (rows # fs)))"

text \<open>
  \<open>create_results_dataframe(*args)\<close>.  With no argument neither branch assigns \<open>df\<close>,
  and \<^verbatim>\<open>return df\<close> raises \<^verbatim>\<open>UnboundLocalError\<close>.  \<^verbatim>\<open>pd.concat\<close> puts the rows of
  its frames one after the other.
\<close>

definition create_results_dataframe :: "'a extlib_scheme \<Rightarrow> pyval list \<Rightarrow> error + pyval" where
  "create_results_dataframe ext args =
     (if length args = 1 then
        (case pd_DataFrame ext (hd args) of
           Inl e \<Rightarrow> Inl e
         | Inr rows \<Rightarrow> Inr (PFrame rows))
      else if length args > 1 then
        (case frames_of ext args of
           Inl e \<Rightarrow> Inl e
         | Inr fs \<Rightarrow> Inr (PFrame (concat fs)))
      else Inl (Interp ''UnboundLocalError'' ''df''))"

section \<open>The decorator \<open>save_result_data\<close>\<close>

text \<open>
  What a call leaves behind is a list of events, oldest first: a call of
  \<^verbatim>\<open>warnings.warn\<close>, a CSV file written, an object serialized with \<^verbatim>\<open>joblib.dump\<close>.
  (The module sets \<^verbatim>\<open>filterwarnings("ignore")\<close> when it is imported; whether a
  warning that is raised is also shown depends on the filters in force at the call.)
\<close>

datatype event =
    Warn string
  | ToCsv pyval pyval
  | Dump pyval pyval

definition no_path_warning :: string where
  "no_path_warning =
     ''No path provided, the result data won'' @ [CHR 0x27] @ ''t be saved.''"

definition kwargs_get :: "pydict \<Rightarrow> string \<Rightarrow> pyval" where
  "kwargs_get kwargs key = (case map_of kwargs key of None \<Rightarrow> PNone | Some v \<Rightarrow> v)"

text \<open>
  \<^verbatim>\<open>results.to_csv(path, index=False)\<close>: a DataFrame or another library object goes to
  the library; a plain Python value has no such method.
\<close>

fun is_library_object :: "pyval \<Rightarrow> bool" where
  "is_library_object (PFrame rows) = True"
| "is_library_object (PObj c attrs) = True"
| "is_library_object v = False"

definition call_to_csv :: "'a extlib_scheme \<Rightarrow> pyval \<Rightarrow> pyval \<Rightarrow> event list \<times> error option" where
  "call_to_csv ext results path =
     (if is_library_object results then
        (case lib_err (to_csv ext results path) of
           None \<Rightarrow> ([ToCsv results path], None)
         | Some e \<Rightarrow> ([], Some e))
      else ([], Some (Interp ''AttributeError'' ''to_csv'')))"

text \<open>\<^verbatim>\<open>a and b\<close> as a condition: \<open>b\<close> is looked at only when \<open>a\<close> is true.\<close>

definition truthy_and :: "'a extlib_scheme \<Rightarrow> pyval \<Rightarrow> pyval \<Rightarrow> error + bool" where
  "truthy_and ext a b =
     (case truthy ext a of
        Inl e \<Rightarrow> Inl e
      | Inr ta \<Rightarrow> if ta then truthy ext b else Inr False)"

text \<open>
  A returned tuple of length two is the results and the additional results; any other
  returned value is the results alone.
\<close>

definition unpack_returned :: "pyval \<Rightarrow> pyval \<times> pyval" where
  "unpack_returned returned_values =
     (case returned_values of
        PTuple [r, a] \<Rightarrow> (r, a)
      | _ \<Rightarrow> (returned_values, PNone))"

definition save_result_data ::
  "'a extlib_scheme \<Rightarrow> ('args \<Rightarrow> pydict \<Rightarrow> event list \<times> (error + pyval)) \<Rightarrow>
     'args \<Rightarrow> pydict \<Rightarrow> event list \<times> (error + pyval)" where
  "save_result_data ext func args kwargs =
     (case func args kwargs of
        (evs, Inl e) \<Rightarrow> (evs, Inl e)
      | (evs, Inr returned_values) \<Rightarrow>
          (let (results, additional_results) = unpack_returned returned_values;
               save_results_path = kwargs_get kwargs ''save_results_path'';
               save_additional_results_path =
                 kwargs_get kwargs ''save_additional_results_path''
           in case truthy ext save_results_path of
                Inl e \<Rightarrow> (evs, Inl e)
              | Inr given \<Rightarrow>
                  (case (if given then call_to_csv ext results save_results_path
                         else ([Warn no_path_warning], None)) of
                     (evs1, Some e) \<Rightarrow> (evs @ evs1, Inl e)
                   | (evs1, None) \<Rightarrow>
                       (case truthy_and ext additional_results save_additional_results_path of
                          Inl e \<Rightarrow> (evs @ evs1, Inl e)
                        | Inr c \<Rightarrow>
                            if c then
                              (case lib_err (joblib_dump ext additional_results
                                               save_additional_results_path) of
                                 Some e \<Rightarrow> (evs @ evs1, Inl e)
                               | None \<Rightarrow>
                                   (evs @ evs1 @
                                      [Dump additional_results save_additional_results_path],
                                    Inr results))
                            else (evs @ evs1, Inr results)))))"

text \<open>
  A call of a decorated function passes the leading parameters by position (they are
  arguments of the embedding), then \<open>rest\<close>, the further positional arguments, then the
  keyword arguments.  Python accepts the call when \<open>rest\<close> is no longer than the list
  of optional parameters and every keyword names an optional parameter that \<open>rest\<close> has
  not filled; otherwise the call raises \<^verbatim>\<open>TypeError\<close>.
\<close>

definition call_ok :: "string list \<Rightarrow> pyval list \<Rightarrow> pydict \<Rightarrow> bool" where
  "call_ok optional rest kwargs =
     (length rest \<le> length optional \<and>
      list_all (\<lambda>k. k \<in> set (drop (length rest) optional)) (map fst kwargs))"

section \<open>\<open>imputation_test\<close>\<close>

fun imputation_inner ::
  "'a extlib_scheme \<Rightarrow> pyval \<Rightarrow> pyval \<Rightarrow> pyval \<Rightarrow> pyval \<Rightarrow> pyval \<Rightarrow> string \<Rightarrow> string \<Rightarrow>
     (pyval \<times> pyval) list \<Rightarrow> row list \<Rightarrow> error + row list" where
  "imputation_inner ext X y num_features cat_features model model_name model_params []
     results = Inr results"
| "imputation_inner ext X y num_features cat_features model model_name model_params
     ((imputer, preprocessor) # rest) results =
     (if imputer = PStr ''none'' \<and> model_name \<notin> set HANDLE_MISSINGS_MODELS then
        imputation_inner ext X y num_features cat_features model model_name model_params
          rest results
      else
        (case cv_scores ext
                (make_pipeline
                   [make_column_transformer
                      [(preprocessor, num_features),
                       (PObj ''OneHotEncoder'' [(''sparse_output'', PBool False)],
                        cat_features)],
                    model])
                X y model_name model_params of
           Inl e \<Rightarrow> Inl e
         | Inr result \<Rightarrow>
             imputation_inner ext X y num_features cat_features model model_name
               model_params rest
               (results @ [AList.update ''Imputation'' imputer result])))"

fun imputation_outer ::
  "'a extlib_scheme \<Rightarrow> pyval \<Rightarrow> pyval \<Rightarrow> pyval \<Rightarrow> pyval \<Rightarrow> (pyval \<times> string \<times> string) list \<Rightarrow>
     (pyval \<times> pyval) list \<Rightarrow> row list \<Rightarrow> error + row list" where
  "imputation_outer ext X y num_features cat_features [] preprocessors results =
     Inr results"
| "imputation_outer ext X y num_features cat_features
     ((model, model_name, model_params) # rest) preprocessors results =
     (case imputation_inner ext X y num_features cat_features model model_name
             model_params preprocessors results of
        Inl e \<Rightarrow> Inl e
      | Inr results1 \<Rightarrow>
          imputation_outer ext X y num_features cat_features rest preprocessors results1)"

definition imputation_test_body ::
  "'a extlib_scheme \<Rightarrow> pyval \<Rightarrow> pyval \<Rightarrow> pyval list \<Rightarrow> (pyval \<times> pyval) list \<Rightarrow> error + pyval" where
  "imputation_test_body ext X y models preprocessors =
     (case prepare_models_info ext models PARAMS_TO_SAVE of
        Inl e \<Rightarrow> Inl e
      | Inr (names, params) \<Rightarrow>
          (case create_preprocessor ext X of
             Inl e \<Rightarrow> Inl e
           | Inr (num_features, cat_features, _) \<Rightarrow>
               (case imputation_outer ext X y num_features cat_features
                       (zip models (zip names params)) preprocessors [] of
                  Inl e \<Rightarrow> Inl e
                | Inr results \<Rightarrow>
                    create_results_dataframe ext [PList (map PDict results)])))"

text \<open>
  The decorated \<open>imputation_test(X, y, models, preprocessors, save_results_path=None)\<close>.
\<close>

definition imputation_test ::
  "'a extlib_scheme \<Rightarrow> pyval \<Rightarrow> pyval \<Rightarrow> pyval list \<Rightarrow> (pyval \<times> pyval) list \<Rightarrow>
     pyval list \<Rightarrow> pydict \<Rightarrow> event list \<times> (error + pyval)" where
  "imputation_test ext X y models preprocessors rest kwargs =
     save_result_data ext
       (\<lambda>(X, y, models, preprocessors, rest) kwargs.
          if call_ok [''save_results_path''] rest kwargs
          then ([], imputation_test_body ext X y models preprocessors)
          else ([], Inl (Interp ''TypeError'' ''imputation_test'')))
       (X, y, models, preprocessors, rest) kwargs"

section \<open>\<open>randomized_search\<close>\<close>

definition py_index :: "pyval list \<Rightarrow> nat \<Rightarrow> error + pyval" where
  "py_index xs i =
     (if i < length xs then Inr (xs ! i)
      else Inl (Interp ''IndexError'' ''list index out of range''))"

definition ndarray :: "float64 list \<Rightarrow> pyval" where
  "ndarray xs = PObj ''ndarray'' [(''data'', PList (map PFloat xs))]"

text \<open>
  \<^verbatim>\<open>idx = np.where(rank == 1)\<close> and \<^verbatim>\<open>np.round((fit + score)[idx][0], 2)\<close>: the
  positions with rank 1 are taken from the summed times, then the first of them.
\<close>

definition best_time :: "'a extlib_scheme \<Rightarrow> search_results \<Rightarrow> error + float64" where
  "best_time ext opt =
     (let idx = filter (\<lambda>i. rank_test_score opt ! i = 1) [0..<length (rank_test_score opt)];
          sums = np_add ext (mean_fit_time opt) (mean_score_time opt)
      in if list_all (\<lambda>i. i < length sums) idx then
           (case idx of
              [] \<Rightarrow> Inl (Lib ''IndexError'' ''index 0 is out of bounds'')
            | i # _ \<Rightarrow> Inr (np_round ext (sums ! i) 2))
         else Inl (Lib ''IndexError'' ''index is out of bounds''))"

fun randomized_search_loop ::
  "'a extlib_scheme \<Rightarrow> pyval \<Rightarrow> pyval \<Rightarrow> pyval list \<Rightarrow> pyval \<Rightarrow> string \<Rightarrow>
     (pyval \<times> pyval) list \<Rightarrow> event list \<Rightarrow> row list \<Rightarrow> pydict \<Rightarrow>
     event list \<times> (error + row list \<times> pydict)" where
  "randomized_search_loop ext X y preprocessors n_iter save_artifact_folder []
     evs results test_scores = (evs, Inr (results, test_scores))"
| "randomized_search_loop ext X y preprocessors n_iter save_artifact_folder
     ((model, param_grid) # rest) evs results test_scores =
     (case py_index preprocessors 0 of
        Inl e \<Rightarrow> (evs, Inl e)
      | Inr p0 \<Rightarrow>
     (case py_index preprocessors 1 of
        Inl e \<Rightarrow> (evs, Inl e)
      | Inr p1 \<Rightarrow>
     (case lib (randomized_search_fit ext
                  (PObj ''Pipeline''
                     [(''preprocessor'', p0), (''remover'', p1), (''model'', model)])
                  param_grid n_iter X y) of
        Inl e \<Rightarrow> (evs, Inl e)
      | Inr optimizer \<Rightarrow>
          (let model_name = class_name model;
               roc_auc = np_round ext (best_score optimizer) 4;
               test_scores1 =
                 AList.update model_name (ndarray (mean_test_score optimizer)) test_scores
           in case best_time ext optimizer of
                Inl e \<Rightarrow> (evs, Inl e)
              | Inr time \<Rightarrow>
                  (let result = [(''Model'', PStr model_name),
                                 (''ROC_AUC'', PFloat roc_auc),
                                 (''Time[s]'', PFloat time)];
                       artifact_path =
                         PStr (os_path_join save_artifact_folder (model_name @ ''.pkl''))
                   in case lib_err (joblib_dump ext (best_estimator optimizer)
                                      artifact_path) of
                        Some e \<Rightarrow> (evs, Inl e)
                      | None \<Rightarrow>
                          randomized_search_loop ext X y preprocessors n_iter
                            save_artifact_folder rest
                            (evs @ [Dump (best_estimator optimizer) artifact_path])
                            (results @ [result]) test_scores1)))))"

definition randomized_search_body ::
  "'a extlib_scheme \<Rightarrow> pyval \<Rightarrow> pyval \<Rightarrow> pyval list \<Rightarrow> pyval list \<Rightarrow> pyval list \<Rightarrow> pyval \<Rightarrow>
     string \<Rightarrow> event list \<times> (error + pyval)" where
  "randomized_search_body ext X y models grids preprocessors n_iter save_artifact_folder =
     (case randomized_search_loop ext X y preprocessors n_iter save_artifact_folder
             (zip models grids) [] [] [] of
        (evs, Inl e) \<Rightarrow> (evs, Inl e)
      | (evs, Inr (results, test_scores)) \<Rightarrow>
          (case create_results_dataframe ext [PList (map PDict results)] of
             Inl e \<Rightarrow> (evs, Inl e)
           | Inr df \<Rightarrow> (evs, Inr (PTuple [df, PDict test_scores]))))"

text \<open>
  The decorated \<open>randomized_search(X, y, models, grids, preprocessors, n_iter,
  save_artifact_folder, save_results_path=None, save_additional_results_path=None)\<close>.
\<close>

definition randomized_search ::
  "'a extlib_scheme \<Rightarrow> pyval \<Rightarrow> pyval \<Rightarrow> pyval list \<Rightarrow> pyval list \<Rightarrow> pyval list \<Rightarrow> pyval \<Rightarrow>
     string \<Rightarrow> pyval list \<Rightarrow> pydict \<Rightarrow> event list \<times> (error + pyval)" where
  "randomized_search ext X y models grids preprocessors n_iter save_artifact_folder
     rest kwargs =
     save_result_data ext
       (\<lambda>(X, y, models, grids, preprocessors, n_iter, save_artifact_folder, rest) kwargs.
          if call_ok [''save_results_path'', ''save_additional_results_path''] rest kwargs
          then randomized_search_body ext X y models grids preprocessors n_iter
                 save_artifact_folder
          else ([], Inl (Interp ''TypeError'' ''randomized_search'')))
       (X, y, models, grids, preprocessors, n_iter, save_artifact_folder, rest) kwargs"

section \<open>\<open>load_results_from_folder\<close>\<close>

fun load_loop ::
  "'a extlib_scheme \<Rightarrow> string \<Rightarrow> string list \<Rightarrow> string list \<Rightarrow> pyval list \<Rightarrow> error + pyval list" where
  "load_loop ext folder_path columns_to_select [] results = Inr results"
| "load_loop ext folder_path columns_to_select (file_name # rest) results =
     (if endswith file_name ''.csv'' then
        (case lib (pd_read_csv ext (os_path_join folder_path file_name)) of
           Inl e \<Rightarrow> Inl e
         | Inr df \<Rightarrow>
             (case lib (frame_getitem ext df columns_to_select) of
                Inl e \<Rightarrow> Inl e
              | Inr result_df \<Rightarrow>
                  load_loop ext folder_path columns_to_select rest (results @ [result_df])))
      else load_loop ext folder_path columns_to_select rest results)"

definition load_results_from_folder :: "'a extlib_scheme \<Rightarrow> string \<Rightarrow> string list \<Rightarrow> error + pyval" where
  "load_results_from_folder ext folder_path columns_to_select =
     (case lib (os_listdir ext folder_path) of
        Inl e \<Rightarrow> Inl e
      | Inr file_names \<Rightarrow>
          (case load_loop ext folder_path columns_to_select file_names [] of
             Inl e \<Rightarrow> Inl e
           | Inr results \<Rightarrow> create_results_dataframe ext results))"

section \<open>\<open>process_fold\<close>\<close>

text \<open>
  \<open>X\<close>, \<open>y\<close> and \<open>estimator\<close> are addresses of objects the caller shares with the other
  folds.  The four \<open>iloc\<close> selections are new objects, \<open>deepcopy\<close> makes another, and
  \<open>fit\<close> is called on the copy with the two training selections.
\<close>

definition process_fold ::
  "'a extlib_scheme \<Rightarrow> heap \<Rightarrow> nat list \<Rightarrow> nat list \<Rightarrow> addr \<Rightarrow> addr \<Rightarrow> addr \<Rightarrow>
     heap \<times> (error + addr \<times> pyval)" where
  "process_fold ext h train_idx test_idx X y estimator =
     (case lib (iloc ext (h ! X) train_idx) of Inl e \<Rightarrow> (h, Inl e) | Inr xtr \<Rightarrow>
     (case lib (iloc ext (h ! X) test_idx) of Inl e \<Rightarrow> (h, Inl e) | Inr xte \<Rightarrow>
     (case lib (iloc ext (h ! y) train_idx) of Inl e \<Rightarrow> (h, Inl e) | Inr ytr \<Rightarrow>
     (case lib (iloc ext (h ! y) test_idx) of Inl e \<Rightarrow> (h, Inl e) | Inr yte \<Rightarrow>
        (let X_train = length h; X_test = length h + 1;
             y_train = length h + 2; y_test = length h + 3;
             h1 = h @ [xtr, xte, ytr, yte]
         in case deepcopy h1 estimator of
              (h2, estimator_copy) \<Rightarrow>
                (case lib (fit ext (h2 ! estimator_copy) (h2 ! X_train) (h2 ! y_train)) of
                   Inl e \<Rightarrow> (h2, Inl e)
                 | Inr (e1, x1, y1) \<Rightarrow>
                     (let h3 = h2[estimator_copy := e1, X_train := x1, y_train := y1]
                      in case lib (predict_proba ext (h3 ! estimator_copy) (h3 ! X_test)) of
                           Inl e \<Rightarrow> (h3, Inl e)
                         | Inr proba \<Rightarrow>
                             (case lib (column1 ext proba) of
                                Inl e \<Rightarrow> (h3, Inl e)
                              | Inr y_proba \<Rightarrow> (h3, Inr (y_test, y_proba))))))))))"

section \<open>A toy library\<close>

text \<open>
  An instance of \<open>extlib\<close> on which the functions above can be run: every call
  succeeds with a fixed answer.  It serves the examples only.
\<close>

definition toy_lib :: extlib where
  "toy_lib = \<lparr>
     cross_validate = (\<lambda>p X y. Inr \<lparr>test_score = [Float 3 (- 2)], fit_time = [Float 1 0],
                                    score_time = [Float 1 0]\<rparr>),
     randomized_search_fit = (\<lambda>p grid n X y.
        Inr \<lparr>best_score = Float 3 (- 2), best_estimator = p,
             mean_test_score = [Float 1 (- 1), Float 3 (- 2)], rank_test_score = [2, 1],
             mean_fit_time = [Float 1 0, Float 1 1], mean_score_time = [Float 1 0, Float 1 0]\<rparr>),
     np_mean = (\<lambda>xs. case xs of [] \<Rightarrow> NaN | x # _ \<Rightarrow> x),
     np_round = (\<lambda>x n. x),
     np_add = (\<lambda>xs ys. xs),
     py_str = (\<lambda>v. case v of PStr s \<Rightarrow> s | _ \<Rightarrow> ''?''),
     obj_truth = (\<lambda>c attrs. Inr True),
     select_dtypes_columns = (\<lambda>X d. Inr (PList [])),
     to_csv = (\<lambda>df path. None),
     joblib_dump = (\<lambda>v path. None),
     os_listdir = (\<lambda>folder. Inr [''notes.txt'']),
     pd_read_csv = (\<lambda>path. Inr (PFrame [])),
     frame_getitem = (\<lambda>df cols. Inr df),
     pd_DataFrame_other = (\<lambda>v. Inl (''ValueError'', ''DataFrame constructor not properly called!'')),
     iloc = (\<lambda>v idx. Inr v),
     fit = (\<lambda>e X y. Inr (PObj (class_name e) ((''fitted_'', PBool True) # attrs_of e), X, y)),
     predict_proba = (\<lambda>e X. Inr (PList [])),
     column1 = (\<lambda>a. Inr a)
   \<rparr>"

section \<open>Notions used to state the properties\<close>

text \<open>
  The preprocessors that \<open>imputation_test\<close> fits for a model of the given name: all
  but those named "none" when the name is not in \<open>HANDLE_MISSINGS_MODELS\<close>.
\<close>

definition fitted_preprocessors :: "string \<Rightarrow> (pyval \<times> pyval) list \<Rightarrow> (pyval \<times> pyval) list" where
  "fitted_preprocessors model_name preprocessors =
     filter (\<lambda>(imputer, preprocessor).
               \<not> (imputer = PStr ''none'' \<and> model_name \<notin> set HANDLE_MISSINGS_MODELS))
       preprocessors"

text \<open>
  For \<open>randomized_search\<close>: the pipeline it searches for a model, the serialization of
  the best estimator of a search to the model's artifact file, and the row of the
  ranking that a search with best time \<open>t\<close> gives.
\<close>

definition artifact_dump :: "string \<Rightarrow> pyval \<Rightarrow> search_results \<Rightarrow> event" where
  "artifact_dump folder model opt =
     Dump (best_estimator opt) (PStr (os_path_join folder (class_name model @ ''.pkl'')))"

definition search_pipeline :: "pyval list \<Rightarrow> pyval \<Rightarrow> pyval" where
  "search_pipeline preprocessors model =
     PObj ''Pipeline'' [(''preprocessor'', preprocessors ! 0),
                        (''remover'', preprocessors ! 1), (''model'', model)]"

definition ranking_row :: "'a extlib_scheme \<Rightarrow> pyval \<Rightarrow> search_results \<Rightarrow> float64 \<Rightarrow> row" where
  "ranking_row ext model opt t =
     [(''Model'', PStr (class_name model)),
      (''ROC_AUC'', PFloat (np_round ext (best_score opt) 4)),
      (''Time[s]'', PFloat t)]"

text \<open>
  For \<open>create_models\<close>: \<open>apply_params obj d\<close> is the object \<open>obj\<close> with the parameters
  of the dict \<open>d\<close> set; \<open>variants p\<close> are the parameter dicts that an element \<open>p\<close> of
  \<open>model_params\<close> stands for; \<open>variant_specs\<close> lists, in order, every parameter dict
  with the base model it belongs to; \<open>seeded h h1 a\<close> says that the object at \<open>a\<close> has
  in \<open>h1\<close> the \<open>random_state\<close> 42 and, if it had a parameter \<open>n_jobs\<close> in \<open>h\<close>, the
  \<open>n_jobs\<close> -1.
\<close>

definition apply_params :: "pyval \<Rightarrow> pydict \<Rightarrow> pyval" where
  "apply_params obj d =
     PObj (class_name obj) (fold (\<lambda>(k, v). AList.update k v) d (attrs_of obj))"

fun variants :: "pyval \<Rightarrow> pydict list" where
  "variants (PList ds) = map dict_items ds"
| "variants (PDict d) = [d]"
| "variants v = []"

definition variant_specs :: "addr list \<Rightarrow> pyval list \<Rightarrow> (addr \<times> pydict) list" where
  "variant_specs base_models model_params =
     concat (map2 (\<lambda>b p. map (Pair b) (variants p)) base_models model_params)"

definition seeded :: "heap \<Rightarrow> heap \<Rightarrow> addr \<Rightarrow> bool" where
  "seeded h h1 a =
     (map_of (attrs_of (h1 ! a)) ''random_state'' = Some (PInt 42) \<and>
      (if ''n_jobs'' \<in> set (map fst (attrs_of (h ! a)))
       then map_of (attrs_of (h1 ! a)) ''n_jobs'' = Some (PInt (- 1)) else True))"

section \<open>Properties\<close>

subsection \<open>Library results\<close>

lemma lib_Inr [simp]: "lib (Inr v) = Inr v"
  by (simp add: lib_def)

lemma lib_Inr_iff [simp]: "lib r = Inr v \<longleftrightarrow> r = Inr v"
  by (cases r) (auto simp: lib_def)

lemma lib_Inl_iff: "lib r = Inl e \<longleftrightarrow> (\<exists>c m. r = Inl (c, m) \<and> e = Lib c m)"
  by (cases r) (auto simp: lib_def)

lemma lib_err_None_iff [simp]: "lib_err r = None \<longleftrightarrow> r = None"
  by (cases r) (auto simp: lib_err_def)

lemma lib_err_Some_iff: "lib_err r = Some e \<longleftrightarrow> (\<exists>c m. r = Some (c, m) \<and> e = Lib c m)"
  by (cases r) (auto simp: lib_err_def)

subsection \<open>The result record of \<open>cv_scores\<close>\<close>

text \<open>
  C5.  Whenever the cross-validation call succeeds, \<open>cv_scores\<close> returns a dict with
  exactly the four keys "Model", "Parameters", "ROC_AUC" and "Time[s]", in this order,
  whose "Model" is the given \<open>model_name\<close> and whose "Parameters" is the given
  \<open>model_params\<close>.
\<close>

theorem cv_scores_record:
  assumes "cross_validate ext pipeline X y = Inr cv"
  shows "\<exists>r. cv_scores ext pipeline X y model_name model_params = Inr r \<and>
           map fst r = [''Model'', ''Parameters'', ''ROC_AUC'', ''Time[s]''] \<and>
           map_of r ''Model'' = Some (PStr model_name) \<and>
           map_of r ''Parameters'' = Some (PStr model_params)"
  using assms by (simp add: cv_scores_def Let_def)

theorem cv_scores_record_witness:
  "\<exists>r. cv_scores toy_lib (PStr ''pipeline'') PNone PNone ''LogisticRegression''
          ''max_features: 3'' = Inr r \<and>
        map fst r = [''Model'', ''Parameters'', ''ROC_AUC'', ''Time[s]''] \<and>
        map_of r ''Model'' = Some (PStr ''LogisticRegression'') \<and>
        map_of r ''Parameters'' = Some (PStr ''max_features: 3'')"
proof -
  have h: "cross_validate toy_lib (PStr ''pipeline'') PNone PNone =
             Inr \<lparr>test_score = [Float 3 (- 2)], fit_time = [Float 1 0],
                  score_time = [Float 1 0]\<rparr>"
    by (simp add: toy_lib_def)
  show ?thesis by (rule cv_scores_record [OF h])
qed

subsection \<open>No results to put in a table\<close>

lemma load_loop_no_csv:
  "\<forall>n\<in>set names. \<not> endswith n ''.csv'' \<Longrightarrow>
     load_loop ext folder cols names results = Inr results"
  by (induction names arbitrary: results) auto

text \<open>
  C9.  \<open>create_results_dataframe\<close> called with no argument fails with
  \<^verbatim>\<open>UnboundLocalError\<close> for \<open>df\<close>, and so does \<open>load_results_from_folder\<close> on a folder
  whose listing has no name ending in ".csv".
\<close>

theorem no_results_unbound:
  assumes "os_listdir ext folder_path = Inr file_names"
    and "\<forall>n\<in>set file_names. \<not> endswith n ''.csv''"
  shows "create_results_dataframe ext [] = Inl (Interp ''UnboundLocalError'' ''df'') \<and>
         load_results_from_folder ext folder_path columns_to_select =
           Inl (Interp ''UnboundLocalError'' ''df'')"
  using assms
  by (simp add: load_results_from_folder_def load_loop_no_csv create_results_dataframe_def)

theorem no_results_unbound_witness:
  "create_results_dataframe toy_lib [] = Inl (Interp ''UnboundLocalError'' ''df'') \<and>
   load_results_from_folder toy_lib ''results'' [''Model'', ''ROC_AUC'', ''Time[s]''] =
     Inl (Interp ''UnboundLocalError'' ''df'')"
proof -
  have h1: "os_listdir toy_lib ''results'' = Inr [''notes.txt'']"
    by (simp add: toy_lib_def)
  have h2: "\<forall>n\<in>set [''notes.txt'']. \<not> endswith n ''.csv''"
    by (simp add: endswith_def)
  show ?thesis by (rule no_results_unbound [OF h1 h2])
qed

subsection \<open>\<open>process_fold\<close> leaves the shared objects alone\<close>

lemma process_fold_prefix:
  "take (length h) (fst (process_fold ext h train_idx test_idx X y estimator)) = h"
  by (auto simp: process_fold_def deepcopy_def Let_def split: sum.splits prod.splits)

lemma take_eq_nth: "take n xs = ys \<Longrightarrow> i < n \<Longrightarrow> i < length ys \<Longrightarrow> xs ! i = ys ! i"
  by (metis nth_take)

text \<open>
  C6.  After any call of \<open>process_fold\<close>, returning or raising, the estimator passed in
  is the object it was before, and so are \<open>X\<close>, \<open>y\<close> and every other object that
  existed before the call: the call only makes new objects and changes those.
\<close>

theorem process_fold_frame:
  assumes "X < length h" and "y < length h" and "estimator < length h"
  shows "fst (process_fold ext h train_idx test_idx X y estimator) ! estimator = h ! estimator \<and>
         fst (process_fold ext h train_idx test_idx X y estimator) ! X = h ! X \<and>
         fst (process_fold ext h train_idx test_idx X y estimator) ! y = h ! y \<and>
         take (length h) (fst (process_fold ext h train_idx test_idx X y estimator)) = h"
proof -
  have pre: "take (length h) (fst (process_fold ext h train_idx test_idx X y estimator)) = h"
    by (rule process_fold_prefix)
  have "\<And>a. a < length h \<Longrightarrow>
          fst (process_fold ext h train_idx test_idx X y estimator) ! a = h ! a"
    using pre by (rule take_eq_nth)
  with assms pre show ?thesis by blast
qed

text \<open>
  On the toy library, whose \<open>fit\<close> marks the estimator it is called on: the mark is on
  the copy at address 7, the estimator at address 2 has none.
\<close>

lemma process_fold_example:
  "process_fold toy_lib
     [PFrame [[(''a'', PInt 1)], [(''a'', PInt 2)]], PList [PInt 0, PInt 1],
      PObj ''LogisticRegression'' [(''C'', PInt 1)]] [0] [1] 0 1 2 =
   ([PFrame [[(''a'', PInt 1)], [(''a'', PInt 2)]], PList [PInt 0, PInt 1],
     PObj ''LogisticRegression'' [(''C'', PInt 1)],
     PFrame [[(''a'', PInt 1)], [(''a'', PInt 2)]],
     PFrame [[(''a'', PInt 1)], [(''a'', PInt 2)]],
     PList [PInt 0, PInt 1], PList [PInt 0, PInt 1],
     PObj ''LogisticRegression'' [(''fitted_'', PBool True), (''C'', PInt 1)]],
    Inr (6, PList []))"
  by (simp add: process_fold_def toy_lib_def deepcopy_def Let_def)

theorem process_fold_frame_witness:
  "fst (process_fold toy_lib
     [PFrame [[(''a'', PInt 1)], [(''a'', PInt 2)]], PList [PInt 0, PInt 1],
      PObj ''LogisticRegression'' [(''C'', PInt 1)]] [0] [1] 0 1 2) ! 2 =
     PObj ''LogisticRegression'' [(''C'', PInt 1)]"
proof -
  have h: "(0::nat) < length [PFrame [[(''a'', PInt 1)], [(''a'', PInt 2)]],
             PList [PInt 0, PInt 1], PObj ''LogisticRegression'' [(''C'', PInt 1)]]"
    "(1::nat) < length [PFrame [[(''a'', PInt 1)], [(''a'', PInt 2)]],
             PList [PInt 0, PInt 1], PObj ''LogisticRegression'' [(''C'', PInt 1)]]"
    "(2::nat) < length [PFrame [[(''a'', PInt 1)], [(''a'', PInt 2)]],
             PList [PInt 0, PInt 1], PObj ''LogisticRegression'' [(''C'', PInt 1)]]"
    by simp_all
  from process_fold_frame [OF h, of toy_lib "[0]" "[1]"]
  show ?thesis by simp
qed

subsection \<open>What the decorator does with the returned values\<close>

lemmas run_defs = imputation_test_def save_result_data_def call_ok_def imputation_test_body_def
  model_info_def create_preprocessor_def toy_lib_def HANDLE_MISSINGS_MODELS_def
  PARAMS_TO_SAVE_def List.map_filter_def create_results_dataframe_def pd_DataFrame_def
  unpack_returned_def kwargs_get_def cv_scores_def call_to_csv_def truthy_and_def
  lib_err_def Let_def

lemma truthy_and_True:
  "truthy_and ext a b = Inr True \<longleftrightarrow> truthy ext a = Inr True \<and> truthy ext b = Inr True"
  by (auto simp: truthy_and_def split: sum.splits)

lemma save_result_data_result:
  assumes "save_result_data ext func args kwargs = (evs, Inr r)"
  shows "\<exists>evs0 rv. func args kwargs = (evs0, Inr rv) \<and> r = fst (unpack_returned rv)"
  using assms
  by (auto simp: save_result_data_def Let_def
           split: prod.splits sum.splits option.splits if_splits)

text \<open>
  C10.  When the wrapped function returns the pair of a DataFrame and additional data,
  the decorated call, if it returns, returns the DataFrame alone; the only object the
  decorator serializes is the additional data, to the keyword argument
  \<open>save_additional_results_path\<close>, and only when both are true values; an empty dict
  of additional data is never serialized, whatever the path.  (\<open>w\<close> is what the
  decorator adds to the events of the wrapped function.)
\<close>

theorem save_result_data_additional:
  assumes "func args kwargs = (evs, Inr (PTuple [df, extra]))"
  shows "\<exists>w. fst (save_result_data ext func args kwargs) = evs @ w \<and>
           (\<forall>r. snd (save_result_data ext func args kwargs) = Inr r \<longrightarrow> r = df) \<and>
           (\<forall>v p. Dump v p \<in> set w \<longrightarrow>
              v = extra \<and> p = kwargs_get kwargs ''save_additional_results_path'' \<and>
              truthy ext extra = Inr True \<and> truthy ext p = Inr True) \<and>
           (extra = PDict [] \<longrightarrow> (\<forall>v p. Dump v p \<notin> set w))"
  using assms
  by (auto simp: save_result_data_def Let_def unpack_returned_def call_to_csv_def
                 truthy_and_True
           split: prod.splits sum.splits option.splits if_splits)

theorem save_result_data_additional_witness:
  "\<exists>w. fst (save_result_data toy_lib
               (\<lambda>args kwargs. ([], Inr (PTuple [PFrame [], PDict []]))) ()
               [(''save_additional_results_path'', PStr ''scores.pkl'')]) = [] @ w \<and>
        (\<forall>r. snd (save_result_data toy_lib
                    (\<lambda>args kwargs. ([], Inr (PTuple [PFrame [], PDict []]))) ()
                    [(''save_additional_results_path'', PStr ''scores.pkl'')]) = Inr r \<longrightarrow>
             r = PFrame []) \<and>
        (\<forall>v p. Dump v p \<in> set w \<longrightarrow>
           v = PDict [] \<and>
           p = kwargs_get [(''save_additional_results_path'', PStr ''scores.pkl'')]
                 ''save_additional_results_path'' \<and>
           truthy toy_lib (PDict []) = Inr True \<and> truthy toy_lib p = Inr True) \<and>
        (PDict [] = PDict [] \<longrightarrow> (\<forall>v p. Dump v p \<notin> set w))"
  using save_result_data_additional
    [where func = "\<lambda>args kwargs. ([], Inr (PTuple [PFrame [], PDict []]))"
       and args = "()" and kwargs = "[(''save_additional_results_path'', PStr ''scores.pkl'')]"
       and evs = "[]" and df = "PFrame []" and extra = "PDict []" and ext = toy_lib]
  by simp

lemma save_result_data_empty_dict_example:
  "save_result_data toy_lib (\<lambda>args kwargs. ([], Inr (PTuple [PFrame [], PDict []]))) ()
     [(''save_results_path'', PStr ''ranking.csv''),
      (''save_additional_results_path'', PStr ''scores.pkl'')] =
   ([ToCsv (PFrame []) (PStr ''ranking.csv'')], Inr (PFrame []))"
  by (simp add: run_defs)

text \<open>
  C3, as the code has it.  When the wrapped function returns and the keyword argument
  \<open>save_results_path\<close> has a truth value \<open>given\<close> (a missing keyword counts as
  \<open>None\<close>), the decorator calls \<^verbatim>\<open>warnings.warn\<close> with the no-path message exactly when
  \<open>given\<close> is false; when \<open>given\<close> is true it warns of nothing and writes the results
  to that path as CSV if the write succeeds; it writes no other CSV.
\<close>

theorem save_result_data_warning:
  assumes "func args kwargs = (evs, Inr rv)"
    and "truthy ext (kwargs_get kwargs ''save_results_path'') = Inr given"
  shows "\<exists>w. fst (save_result_data ext func args kwargs) = evs @ w \<and>
           (Warn no_path_warning \<in> set w \<longleftrightarrow> \<not> given) \<and>
           (\<forall>m. Warn m \<in> set w \<longrightarrow> m = no_path_warning) \<and>
           (given \<and> is_library_object (fst (unpack_returned rv)) \<and>
              to_csv ext (fst (unpack_returned rv))
                (kwargs_get kwargs ''save_results_path'') = None \<longrightarrow>
              ToCsv (fst (unpack_returned rv)) (kwargs_get kwargs ''save_results_path'')
                \<in> set w) \<and>
           (\<forall>d p. ToCsv d p \<in> set w \<longrightarrow>
              given \<and> d = fst (unpack_returned rv) \<and>
              p = kwargs_get kwargs ''save_results_path'')"
  using assms
  by (auto simp: save_result_data_def Let_def call_to_csv_def lib_err_Some_iff
           split: prod.splits sum.splits option.splits if_splits)

theorem save_result_data_warning_witness:
  "\<exists>w. fst (save_result_data toy_lib (\<lambda>args kwargs. ([], Inr (PFrame []))) ()
               [(''save_results_path'', PStr ''results.csv'')]) = [] @ w \<and>
        (Warn no_path_warning \<in> set w \<longleftrightarrow> \<not> True) \<and>
        (\<forall>m. Warn m \<in> set w \<longrightarrow> m = no_path_warning) \<and>
        (True \<and> is_library_object (fst (unpack_returned (PFrame []))) \<and>
           to_csv toy_lib (fst (unpack_returned (PFrame [])))
             (kwargs_get [(''save_results_path'', PStr ''results.csv'')]
                ''save_results_path'') = None \<longrightarrow>
           ToCsv (fst (unpack_returned (PFrame [])))
             (kwargs_get [(''save_results_path'', PStr ''results.csv'')]
                ''save_results_path'') \<in> set w) \<and>
        (\<forall>d p. ToCsv d p \<in> set w \<longrightarrow>
           True \<and> d = fst (unpack_returned (PFrame [])) \<and>
           p = kwargs_get [(''save_results_path'', PStr ''results.csv'')]
                 ''save_results_path'')"
proof -
  have h: "truthy toy_lib (kwargs_get [(''save_results_path'', PStr ''results.csv'')]
             ''save_results_path'') = Inr True"
    by (simp add: kwargs_get_def)
  from save_result_data_warning
    [where func = "\<lambda>args kwargs. ([], Inr (PFrame []))" and args = "()"
       and evs = "[]" and rv = "PFrame []", OF _ h]
  show ?thesis by simp
qed

text \<open>
  The statement of C3 itself fails: here the caller gives the path \<^verbatim>\<open>"results.csv"\<close>
  as the fifth positional argument.  \<open>imputation_test\<close> receives it as its
  \<open>save_results_path\<close>, the decorator looks among the keyword arguments only, warns
  that no path was provided and writes nothing.
\<close>

theorem save_results_path_counterexample:
  "imputation_test toy_lib PNone PNone
     [PObj ''LogisticRegression'' [(''max_features'', PStr ''sqrt'')]]
     [(PStr ''SimpleImputer'', PObj ''SimpleImputer'' [])] [PStr ''results.csv''] [] =
   ([Warn no_path_warning],
    Inr (PFrame [[(''Model'', PStr ''LogisticRegression''),
                  (''Parameters'', PStr ''max_features: sqrt''),
                  (''ROC_AUC'', PFloat (Float 3 (- 2))),
                  (''Time[s]'', PFloat (Float 1 0)),
                  (''Imputation'', PStr ''SimpleImputer'')]]))"
  by (simp add: run_defs)

subsection \<open>The rows of \<open>imputation_test\<close>\<close>

lemma imputation_inner_length:
  "imputation_inner ext X y num cat model model_name model_params pre results = Inr res \<Longrightarrow>
     length res = length results + length (fitted_preprocessors model_name pre)"
proof (induction pre arbitrary: results)
  case Nil
  then show ?case by (simp add: fitted_preprocessors_def)
next
  case (Cons p pre)
  obtain imputer preprocessor where p: "p = (imputer, preprocessor)" by (cases p)
  show ?case
  proof (cases "imputer = PStr ''none'' \<and> model_name \<notin> set HANDLE_MISSINGS_MODELS")
    case True
    with Cons.prems p
    have "imputation_inner ext X y num cat model model_name model_params pre results = Inr res"
      by simp
    from Cons.IH [OF this] True p show ?thesis by (simp add: fitted_preprocessors_def)
  next
    case False
    with Cons.prems p obtain result where
      "imputation_inner ext X y num cat model model_name model_params pre
         (results @ [AList.update ''Imputation'' imputer result]) = Inr res"
      by (auto split: sum.splits)
    from Cons.IH [OF this] False p show ?thesis by (auto simp add: fitted_preprocessors_def)
  qed
qed

lemma imputation_outer_length:
  "imputation_outer ext X y num cat triples pre results = Inr res \<Longrightarrow>
     length res = length results +
       (\<Sum>name\<leftarrow>map (fst \<circ> snd) triples. length (fitted_preprocessors name pre))"
proof (induction triples arbitrary: results)
  case Nil
  then show ?case by simp
next
  case (Cons t triples)
  obtain model model_name model_params where t: "t = (model, model_name, model_params)"
    by (cases t)
  from Cons.prems t obtain results1 where
    inner: "imputation_inner ext X y num cat model model_name model_params pre results =
              Inr results1"
    and outer: "imputation_outer ext X y num cat triples pre results1 = Inr res"
    by (auto split: sum.splits)
  from imputation_inner_length [OF inner] Cons.IH [OF outer] t show ?case by simp
qed

lemma prepare_models_info_length:
  "prepare_models_info ext models pts = Inr (names, params) \<Longrightarrow>
     length names = length models \<and> length params = length models"
  by (induction models arbitrary: names params) (auto split: sum.splits prod.splits)

lemma create_results_dataframe_records:
  "create_results_dataframe ext [PList (map PDict results)] = Inr (PFrame results)"
proof -
  have "list_all is_dict (map PDict results)" by (induction results) auto
  moreover have "map dict_items (map PDict results) = results" by (induction results) auto
  ultimately show ?thesis by (simp add: create_results_dataframe_def pd_DataFrame_def)
qed

lemma fitted_preprocessors_all:
  "\<forall>(imputer, preprocessor)\<in>set pre. imputer \<noteq> PStr ''none'' \<Longrightarrow>
     fitted_preprocessors name pre = pre"
  by (auto simp: fitted_preprocessors_def intro!: filter_True)

lemma sum_list_const: "(\<Sum>x\<leftarrow>xs. (c::nat)) = length xs * c"
  by (induction xs) auto

text \<open>
  C2, as the code has it.  When \<open>imputation_test\<close> returns, it returns a DataFrame with
  one row for each model and each preprocessor that the loop does not skip: a
  preprocessor named "none" is skipped for a model whose name is not in
  \<open>HANDLE_MISSINGS_MODELS\<close>.  When no preprocessor is named "none" that is
  \<open>len(models) * len(preprocessors)\<close> rows.
\<close>

theorem imputation_test_rows:
  assumes "imputation_test ext X y models preprocessors rest kwargs = (evs, Inr r)"
  shows "\<exists>names params rows.
           prepare_models_info ext models PARAMS_TO_SAVE = Inr (names, params) \<and>
           length names = length models \<and>
           r = PFrame rows \<and>
           length rows = (\<Sum>name\<leftarrow>names. length (fitted_preprocessors name preprocessors)) \<and>
           ((\<forall>(imputer, preprocessor)\<in>set preprocessors. imputer \<noteq> PStr ''none'') \<longrightarrow>
              length rows = length models * length preprocessors)"
proof -
  from save_result_data_result [OF assms [unfolded imputation_test_def]]
  obtain rv where body: "imputation_test_body ext X y models preprocessors = Inr rv"
    and r: "r = fst (unpack_returned rv)"
    by (auto split: if_splits)
  from body obtain names params num cat gp results where
    info: "prepare_models_info ext models PARAMS_TO_SAVE = Inr (names, params)"
    and outer: "imputation_outer ext X y num cat (zip models (zip names params))
                  preprocessors [] = Inr results"
    and rv: "rv = PFrame results"
    by (auto simp: imputation_test_body_def create_results_dataframe_records
             split: sum.splits prod.splits)
  from prepare_models_info_length [OF info]
  have len: "length names = length models" "length params = length models" by simp_all
  then have names: "map (fst \<circ> snd) (zip models (zip names params)) = names"
    by (simp add: map_fst_zip map_snd_zip flip: map_map)
  from imputation_outer_length [OF outer] names
  have rows: "length results =
                (\<Sum>name\<leftarrow>names. length (fitted_preprocessors name preprocessors))"
    by simp
  have "length results = length models * length preprocessors"
    if "\<forall>(imputer, preprocessor)\<in>set preprocessors. imputer \<noteq> PStr ''none''"
    using rows len by (simp add: fitted_preprocessors_all [OF that] sum_list_const)
  with info len r rv rows show ?thesis by (simp add: unpack_returned_def)
qed

lemma imputation_test_example:
  "imputation_test toy_lib PNone PNone
     [PObj ''LogisticRegression'' [(''max_features'', PStr ''sqrt'')]]
     [(PStr ''SimpleImputer'', PObj ''SimpleImputer'' [])] []
     [(''save_results_path'', PStr ''results.csv'')] =
   ([ToCsv (PFrame [[(''Model'', PStr ''LogisticRegression''),
                     (''Parameters'', PStr ''max_features: sqrt''),
                     (''ROC_AUC'', PFloat (Float 3 (- 2))),
                     (''Time[s]'', PFloat (Float 1 0)),
                     (''Imputation'', PStr ''SimpleImputer'')]]) (PStr ''results.csv'')],
    Inr (PFrame [[(''Model'', PStr ''LogisticRegression''),
                  (''Parameters'', PStr ''max_features: sqrt''),
                  (''ROC_AUC'', PFloat (Float 3 (- 2))),
                  (''Time[s]'', PFloat (Float 1 0)),
                  (''Imputation'', PStr ''SimpleImputer'')]]))"
  by (simp add: run_defs)

theorem imputation_test_rows_witness:
  "\<exists>names params rows.
     prepare_models_info toy_lib
       [PObj ''LogisticRegression'' [(''max_features'', PStr ''sqrt'')]] PARAMS_TO_SAVE =
       Inr (names, params) \<and>
     length names = length [PObj ''LogisticRegression'' [(''max_features'', PStr ''sqrt'')]] \<and>
     PFrame [[(''Model'', PStr ''LogisticRegression''),
              (''Parameters'', PStr ''max_features: sqrt''),
              (''ROC_AUC'', PFloat (Float 3 (- 2))),
              (''Time[s]'', PFloat (Float 1 0)),
              (''Imputation'', PStr ''SimpleImputer'')]] = PFrame rows \<and>
     length rows =
       (\<Sum>name\<leftarrow>names. length (fitted_preprocessors name
                                  [(PStr ''SimpleImputer'', PObj ''SimpleImputer'' [])])) \<and>
     ((\<forall>(imputer, preprocessor)\<in>set [(PStr ''SimpleImputer'', PObj ''SimpleImputer'' [])].
          imputer \<noteq> PStr ''none'') \<longrightarrow>
        length rows =
          length [PObj ''LogisticRegression'' [(''max_features'', PStr ''sqrt'')]] *
          length [(PStr ''SimpleImputer'', PObj ''SimpleImputer'' [])])"
  by (rule imputation_test_rows [OF imputation_test_example])

text \<open>
  The statement of C2 itself fails: one model that does not handle missing values and
  one preprocessor named "none" give a table with no row, not with \<open>1 * 1\<close> rows.
\<close>

theorem imputation_test_rows_counterexample:
  "imputation_test toy_lib PNone PNone [PObj ''LogisticRegression'' []]
     [(PStr ''none'', PObj ''FunctionTransformer'' [])] [] [] =
   ([Warn no_path_warning], Inr (PFrame []))"
  by (simp add: run_defs)

subsection \<open>The artifacts and the ranking of \<open>randomized_search\<close>\<close>

lemma py_index_Inr: "py_index xs i = Inr v \<Longrightarrow> v = xs ! i"
  by (auto simp: py_index_def split: if_splits)

lemma randomized_search_loop_ok:
  "randomized_search_loop ext X y pre n folder mgs evs0 res0 ts0 = (evs, Inr (res, ts)) \<Longrightarrow>
   \<exists>ots. length ots = length mgs \<and>
     (\<forall>i<length mgs.
        randomized_search_fit ext (search_pipeline pre (fst (mgs ! i))) (snd (mgs ! i)) n X y =
          Inr (fst (ots ! i))) \<and>
     evs = evs0 @ map2 (\<lambda>(m, g) (opt, t). artifact_dump folder m opt) mgs ots \<and>
     res = res0 @ map2 (\<lambda>(m, g) (opt, t). ranking_row ext m opt t) mgs ots"
proof (induction mgs arbitrary: evs0 res0 ts0)
  case Nil
  then show ?case by simp
next
  case (Cons mg mgs)
  obtain model grid where mg: "mg = (model, grid)" by (cases mg)
  from Cons.prems mg obtain opt t where
    fit: "randomized_search_fit ext (search_pipeline pre model) grid n X y = Inr opt"
    and dump: "joblib_dump ext (best_estimator opt)
                 (PStr (os_path_join folder (class_name model @ ''.pkl''))) = None"
    and rest: "randomized_search_loop ext X y pre n folder mgs
                 (evs0 @ [artifact_dump folder model opt])
                 (res0 @ [ranking_row ext model opt t])
                 (AList.update (class_name model) (ndarray (mean_test_score opt)) ts0) =
               (evs, Inr (res, ts))"
    by (auto simp: Let_def search_pipeline_def artifact_dump_def ranking_row_def
             dest!: py_index_Inr split: sum.splits option.splits)
  from Cons.IH [OF rest] obtain ots where
    ots: "length ots = length mgs"
      "\<forall>i<length mgs.
        randomized_search_fit ext (search_pipeline pre (fst (mgs ! i))) (snd (mgs ! i)) n X y =
          Inr (fst (ots ! i))"
      "evs = (evs0 @ [artifact_dump folder model opt]) @
               map2 (\<lambda>(m, g) (opt, t). artifact_dump folder m opt) mgs ots"
      "res = (res0 @ [ranking_row ext model opt t]) @
               map2 (\<lambda>(m, g) (opt, t). ranking_row ext m opt t) mgs ots"
    by blast
  have "\<forall>i<length (mg # mgs).
        randomized_search_fit ext (search_pipeline pre (fst ((mg # mgs) ! i)))
          (snd ((mg # mgs) ! i)) n X y = Inr (fst (((opt, t) # ots) ! i))"
    using ots(2) fit mg by (auto simp: nth_Cons split: nat.splits)
  with ots mg show ?case
    by (intro exI [of _ "(opt, t) # ots"]) simp
qed

lemma save_result_data_events:
  assumes "func args kwargs = (evs0, Inr rv)"
  shows "\<exists>w. fst (save_result_data ext func args kwargs) = evs0 @ w \<and>
           (\<forall>v p. Dump v p \<in> set w \<longrightarrow>
              v = snd (unpack_returned rv) \<and>
              p = kwargs_get kwargs ''save_additional_results_path'')"
  using assms
  by (auto simp: save_result_data_def Let_def call_to_csv_def
           split: prod.splits sum.splits option.splits if_splits)

text \<open>
  C7.  When \<open>randomized_search\<close> returns for models and grids of the same length, every
  model has had its search, the events of the call begin with one serialization per
  model, in order, of the best estimator of that model's search to
  \<open>save_artifact_folder\<close> joined with the model's class name and ".pkl", the only other
  serialization goes to \<open>save_additional_results_path\<close>, and the returned DataFrame
  has one row per model, in order, with exactly the fields "Model", "ROC_AUC" and
  "Time[s]", "Model" being the class name.
\<close>

theorem randomized_search_artifacts:
  assumes "randomized_search ext X y models grids preprocessors n_iter save_artifact_folder
             rest kwargs = (evs, Inr r)"
    and "length grids = length models"
  shows "\<exists>(ots :: (search_results \<times> float64) list) w rows.
           length ots = length models \<and>
           (\<forall>i<length models.
              randomized_search_fit ext (search_pipeline preprocessors (models ! i))
                (grids ! i) n_iter X y = Inr (fst (ots ! i))) \<and>
           evs = map2 (\<lambda>model (opt, t). artifact_dump save_artifact_folder model opt)
                   models ots @ w \<and>
           (\<forall>v p. Dump v p \<in> set w \<longrightarrow>
              p = kwargs_get kwargs ''save_additional_results_path'') \<and>
           r = PFrame rows \<and>
           length rows = length models \<and>
           (\<forall>i<length models.
              map fst (rows ! i) = [''Model'', ''ROC_AUC'', ''Time[s]''] \<and>
              map_of (rows ! i) ''Model'' = Some (PStr (class_name (models ! i))))"
proof -
  let ?f = "\<lambda>(X, y, models, grids, preprocessors, n_iter, save_artifact_folder, rest) kwargs.
          if call_ok [''save_results_path'', ''save_additional_results_path''] rest kwargs
          then randomized_search_body ext X y models grids preprocessors n_iter
                 save_artifact_folder
          else ([], Inl (Interp ''TypeError'' ''randomized_search''))"
  let ?a = "(X, y, models, grids, preprocessors, n_iter, save_artifact_folder, rest)"
  from save_result_data_result [OF assms(1) [unfolded randomized_search_def]]
  obtain evs0 rv where f: "?f ?a kwargs = (evs0, Inr rv)"
    and r: "r = fst (unpack_returned rv)"
    by blast
  then have body: "randomized_search_body ext X y models grids preprocessors n_iter
                     save_artifact_folder = (evs0, Inr rv)"
    by (auto split: if_splits)
  then obtain results test_scores where
    loop: "randomized_search_loop ext X y preprocessors n_iter save_artifact_folder
             (zip models grids) [] [] [] = (evs0, Inr (results, test_scores))"
    and rv: "rv = PTuple [PFrame results, PDict test_scores]"
    by (auto simp: randomized_search_body_def create_results_dataframe_records
             split: prod.splits sum.splits)
  from randomized_search_loop_ok [OF loop] assms(2) obtain ots where
    ots: "length ots = length models"
      "\<forall>i<length models.
         randomized_search_fit ext (search_pipeline preprocessors (models ! i))
           (grids ! i) n_iter X y = Inr (fst (ots ! i))"
      "evs0 = map2 (\<lambda>(m, g) (opt, t). artifact_dump save_artifact_folder m opt)
                (zip models grids) ots"
      "results = map2 (\<lambda>(m, g) (opt, t). ranking_row ext m opt t) (zip models grids) ots"
    by auto
  from save_result_data_events [where func = ?f and args = ?a and ext = ext, OF f] assms(1)
  obtain w where
    w: "evs = evs0 @ w"
      "\<forall>v p. Dump v p \<in> set w \<longrightarrow> p = kwargs_get kwargs ''save_additional_results_path''"
    by (auto simp: randomized_search_def)
  have evs0: "evs0 = map2 (\<lambda>model (opt, t). artifact_dump save_artifact_folder model opt)
                models ots"
    unfolding ots(3) using ots(1) assms(2)
    by (intro nth_equalityI) (auto split: prod.splits)
  have rows: "\<forall>i<length models.
              map fst (results ! i) = [''Model'', ''ROC_AUC'', ''Time[s]''] \<and>
              map_of (results ! i) ''Model'' = Some (PStr (class_name (models ! i)))"
    unfolding ots(4) using ots(1) assms(2)
    by (auto simp: ranking_row_def split: prod.splits)
  have len: "length results = length models"
    unfolding ots(4) using ots(1) assms(2) by simp
  have "r = PFrame results"
    using r rv by (simp add: unpack_returned_def)
  with ots(1,2) w evs0 rows len
  have "length ots = length models \<and>
        (\<forall>i<length models.
           randomized_search_fit ext (search_pipeline preprocessors (models ! i))
             (grids ! i) n_iter X y = Inr (fst (ots ! i))) \<and>
        evs = map2 (\<lambda>model (opt, t). artifact_dump save_artifact_folder model opt)
                models ots @ w \<and>
        (\<forall>v p. Dump v p \<in> set w \<longrightarrow>
           p = kwargs_get kwargs ''save_additional_results_path'') \<and>
        r = PFrame results \<and>
        length results = length models \<and>
        (\<forall>i<length models.
           map fst (results ! i) = [''Model'', ''ROC_AUC'', ''Time[s]''] \<and>
           map_of (results ! i) ''Model'' = Some (PStr (class_name (models ! i))))"
    by simp
  then show ?thesis
    by - (rule exI [of _ ots], rule exI [of _ w], rule exI [of _ results], assumption)
qed

lemma randomized_search_example:
  "randomized_search toy_lib PNone PNone [PObj ''RandomForestClassifier'' []] [PDict []]
     [PStr ''pre'', PStr ''rem''] (PInt 10) ''models'' []
     [(''save_results_path'', PStr ''ranking.csv''),
      (''save_additional_results_path'', PStr ''scores.pkl'')] =
   ([Dump (PObj ''Pipeline''
             [(''preprocessor'', PStr ''pre''), (''remover'', PStr ''rem''),
              (''model'', PObj ''RandomForestClassifier'' [])])
        (PStr ''models/RandomForestClassifier.pkl''),
     ToCsv (PFrame [[(''Model'', PStr ''RandomForestClassifier''),
                     (''ROC_AUC'', PFloat (Float 3 (- 2))),
                     (''Time[s]'', PFloat (Float 1 1))]])
        (PStr ''ranking.csv''),
     Dump (PDict [(''RandomForestClassifier'',
                   PObj ''ndarray''
                     [(''data'', PList [PFloat (Float 1 (- 1)), PFloat (Float 3 (- 2))])])])
        (PStr ''scores.pkl'')],
    Inr (PFrame [[(''Model'', PStr ''RandomForestClassifier''),
                  (''ROC_AUC'', PFloat (Float 3 (- 2))),
                  (''Time[s]'', PFloat (Float 1 1))]]))"
  by (simp add: run_defs randomized_search_def randomized_search_body_def py_index_def
      best_time_def ndarray_def os_path_join_def startswith_def endswith_def)

theorem randomized_search_artifacts_witness:
  "\<exists>(ots :: (search_results \<times> float64) list) w rows.
     length ots = length [PObj ''RandomForestClassifier'' []] \<and>
     (\<forall>i<length [PObj ''RandomForestClassifier'' []].
        randomized_search_fit toy_lib
          (search_pipeline [PStr ''pre'', PStr ''rem'']
             ([PObj ''RandomForestClassifier'' []] ! i))
          ([PDict []] ! i) (PInt 10) PNone PNone = Inr (fst (ots ! i))) \<and>
     [Dump (PObj ''Pipeline''
              [(''preprocessor'', PStr ''pre''), (''remover'', PStr ''rem''),
               (''model'', PObj ''RandomForestClassifier'' [])])
         (PStr ''models/RandomForestClassifier.pkl''),
      ToCsv (PFrame [[(''Model'', PStr ''RandomForestClassifier''),
                      (''ROC_AUC'', PFloat (Float 3 (- 2))),
                      (''Time[s]'', PFloat (Float 1 1))]])
         (PStr ''ranking.csv''),
      Dump (PDict [(''RandomForestClassifier'',
                    PObj ''ndarray''
                      [(''data'', PList [PFloat (Float 1 (- 1)), PFloat (Float 3 (- 2))])])])
         (PStr ''scores.pkl'')] =
       map2 (\<lambda>model (opt, t). artifact_dump ''models'' model opt)
         [PObj ''RandomForestClassifier'' []] ots @ w \<and>
     (\<forall>v p. Dump v p \<in> set w \<longrightarrow>
        p = kwargs_get [(''save_results_path'', PStr ''ranking.csv''),
                        (''save_additional_results_path'', PStr ''scores.pkl'')]
              ''save_additional_results_path'') \<and>
     PFrame [[(''Model'', PStr ''RandomForestClassifier''),
              (''ROC_AUC'', PFloat (Float 3 (- 2))),
              (''Time[s]'', PFloat (Float 1 1))]] = PFrame rows \<and>
     length rows = length [PObj ''RandomForestClassifier'' []] \<and>
     (\<forall>i<length [PObj ''RandomForestClassifier'' []].
        map fst (rows ! i) = [''Model'', ''ROC_AUC'', ''Time[s]''] \<and>
        map_of (rows ! i) ''Model'' =
          Some (PStr (class_name ([PObj ''RandomForestClassifier'' []] ! i))))"
proof -
  have h: "length [PDict []] = length [PObj ''RandomForestClassifier'' []]"
    by simp
  show ?thesis by (rule randomized_search_artifacts [OF randomized_search_example h])
qed

subsection \<open>\<open>create_models\<close>: the heap after the call\<close>

lemmas create_defs = create_models_def get_params_def set_params_def deepcopy_def
  set_model_params_def RANDOM_STATE_def

lemma set_params_attrs_keys:
  "set_params_attrs ps kvs = (ps', r) \<Longrightarrow> map fst ps' = map fst ps"
  by (induction kvs arbitrary: ps) (auto simp: update_keys split: if_splits)

lemma set_params_attrs_ok:
  "set_params_attrs ps kvs = (ps', None) \<Longrightarrow> ps' = fold (\<lambda>(k, v). AList.update k v) kvs ps"
  by (induction kvs arbitrary: ps) (auto split: if_splits)

lemma list_update_nth_cases:
  "xs[a := x] ! b = (if b = a \<and> a < length xs then x else xs ! b)"
  by (cases "a < length xs") (auto simp: nth_list_update list_update_beyond)

lemma set_params_frame:
  assumes "set_params h a kvs = (h', r)"
  shows "length h' = length h" and "b \<noteq> a \<Longrightarrow> h' ! b = h ! b"
    and "class_name (h' ! b) = class_name (h ! b)"
    and "map fst (attrs_of (h' ! b)) = map fst (attrs_of (h ! b))"
  using assms
  by (auto simp: set_params_def list_update_nth_cases dest: set_params_attrs_keys
           split: pyval.splits prod.splits option.splits)

lemma set_params_ok:
  assumes "set_params h a kvs = (h', Inr m)"
  shows "m = a \<and> h' = h[a := apply_params (h ! a) kvs]"
  using assms
  by (auto simp: set_params_def apply_params_def dest: set_params_attrs_ok
           split: pyval.splits prod.splits option.splits)


lemma set_params_update:
  assumes "set_params h a kvs = (h', r)"
  shows "\<exists>x. h' = h[a := x]"
proof (cases "h ! a")
  case (PObj c ps)
  with assms show ?thesis
    by (auto simp: set_params_def split: prod.splits option.splits)
qed (use assms in \<open>simp_all add: set_params_def\<close>, (metis list_update_id)+)

lemma set_model_params_cases:
  assumes "set_model_params h model p = (h', r)"
  obtains (dict) d r2 where "p = PDict d"
      and "set_params (h @ [h ! model]) (length h) d = (h', r2)"
      and "r = (case r2 of Inl e \<Rightarrow> Inl e | Inr m \<Rightarrow> Inr (length h))"
    | (other) "\<not> is_dict p" and "h' = h @ [h ! model]"
      and "r = Inl (Interp ''TypeError'' ''argument after ** must be a mapping'')"
proof (cases p)
  case (PDict d)
  obtain h2 r2 where sp: "set_params (h @ [h ! model]) (length h) d = (h2, r2)"
    by (cases "set_params (h @ [h ! model]) (length h) d")
  with assms PDict have "h' = h2 \<and> r = (case r2 of Inl e \<Rightarrow> Inl e | Inr m \<Rightarrow> Inr (length h))"
    by (cases r2) (auto simp: set_model_params_def deepcopy_def)
  with sp PDict show ?thesis using dict [of d r2] by simp
qed (use assms in \<open>simp_all add: set_model_params_def deepcopy_def\<close>)

lemma set_model_params_prefix:
  assumes "set_model_params h model p = (h', r)"
  shows "take (length h) h' = h"
  using assms
proof (cases rule: set_model_params_cases)
  case (dict d r2)
  from set_params_update [OF dict(2)] show ?thesis by auto
next
  case other
  then show ?thesis by simp
qed

lemma set_model_params_ok:
  assumes "set_model_params h model p = (h', Inr m)"
  shows "m = length h \<and> is_dict p \<and> h' = h @ [apply_params (h ! model) (dict_items p)]"
  using assms
proof (cases rule: set_model_params_cases)
  case (dict d r2)
  then obtain m2 where "r2 = Inr m2" by (cases r2) auto
  with dict set_params_ok [of "h @ [h ! model]" "length h" d h' m2]
  show ?thesis by simp
next
  case other
  then show ?thesis by simp
qed

lemma append_variants_prefix:
  "append_variants h models model ds = (h', r) \<Longrightarrow>
     take (length h) h' = h \<and> (\<forall>res. r = Inr res \<longrightarrow> take (length models) res = models)"
proof (induction ds arbitrary: h models)
  case Nil
  then show ?case by auto
next
  case (Cons d ds)
  show ?case
  proof (cases "set_model_params h model d")
    case (Pair h1 r1)
    note pre = set_model_params_prefix [OF Pair]
    show ?thesis
    proof (cases r1)
      case (Inl e)
      with Cons.prems Pair pre show ?thesis by auto
    next
      case (Inr m)
      with Cons.prems Pair have "append_variants h1 (models @ [m]) model ds = (h', r)"
        by simp
      from Cons.IH [OF this] pre show ?thesis
        by (metis append_eq_conv_conj length_take take_take)
    qed
  qed
qed


lemma upt_Suc_shift: "[n ..< n + Suc k] = n # [Suc n ..< Suc n + k]"
  by (simp add: upt_conv_Cons del: upt_Suc)

lemma append_variants_ok:
  "append_variants h models model ds = (h', Inr res) \<Longrightarrow> model < length h \<Longrightarrow>
     res = models @ [length h ..< length h + length ds] \<and>
     h' = h @ map (\<lambda>d. apply_params (h ! model) (dict_items d)) ds"
proof (induction ds arbitrary: h models)
  case Nil
  then show ?case by simp
next
  case (Cons d ds)
  from Cons.prems(1) obtain h1 m where
    smp: "set_model_params h model d = (h1, Inr m)"
    and rest: "append_variants h1 (models @ [m]) model ds = (h', Inr res)"
    by (auto split: prod.splits sum.splits)
  from set_model_params_ok [OF smp]
  have m: "m = length h" and h1: "h1 = h @ [apply_params (h ! model) (dict_items d)]"
    by simp_all
  from Cons.prems(2) h1 have "model < length h1" and same: "h1 ! model = h ! model"
    by (simp_all add: nth_append)
  from Cons.IH [OF rest this(1)]
  have res: "res = (models @ [m]) @ [length h1 ..< length h1 + length ds]"
    and h': "h' = h1 @ map (\<lambda>d. apply_params (h1 ! model) (dict_items d)) ds"
    by blast+
  have "length h1 = Suc (length h)" using h1 by simp
  with res m have "res = models @ [length h ..< length h + length (d # ds)]"
    using upt_Suc_shift [of "length h" "length ds"] by (simp del: upt_Suc)
  moreover from h' same h1
  have "h' = h @ map (\<lambda>d. apply_params (h ! model) (dict_items d)) (d # ds)"
    by simp
  ultimately show ?case by blast
qed

lemma zip_append_left:
  "length ys \<le> length xs \<Longrightarrow> zip (xs @ zs) ys = zip xs ys"
  by (simp add: zip_append1)

lemma upt_append_upt: "i \<le> j \<Longrightarrow> j \<le> k \<Longrightarrow> [i..<j] @ [j..<k] = [i..<k]"
  by (metis le_Suc_ex upt_add_eq_append)

lemma create_loop_round:
  assumes "create_loop h models i (p # rest) = (h', Inr res)"
    and "i < length models" and "models ! i < length h"
  obtains h1 where
    "h1 = h @ map (apply_params (h ! (models ! i))) (variants p)"
    "create_loop h1 (models @ [length h ..< length h1]) (Suc i) rest = (h', Inr res)"
proof (cases p)
  case (PList ds)
  with assms obtain h1 models1 where
    av: "append_variants h models (models ! i) ds = (h1, Inr models1)"
    and rest: "create_loop h1 models1 (Suc i) rest = (h', Inr res)"
    by (auto split: prod.splits sum.splits)
  from append_variants_ok [OF av assms(3)] rest PList that [of h1] show ?thesis
    by (simp add: comp_def)
next
  case (PDict d)
  with assms obtain h1 m where
    smp: "set_model_params h (models ! i) (PDict d) = (h1, Inr m)"
    and rest: "create_loop h1 (models @ [m]) (Suc i) rest = (h', Inr res)"
    by (auto split: prod.splits sum.splits)
  from set_model_params_ok [OF smp] rest PDict that [of h1] show ?thesis
    by simp
qed (use assms in simp_all)

lemma create_loop_ok:
  "create_loop h models i items = (h', Inr res) \<Longrightarrow> i + length items \<le> length models \<Longrightarrow>
   \<forall>a\<in>set models. a < length h \<Longrightarrow>
     h' = h @ concat (map2 (\<lambda>b p. map (apply_params (h ! b)) (variants p))
                        (drop i models) items) \<and>
     res = models @ [length h ..< length h']"
proof (induction items arbitrary: h models i)
  case Nil
  then show ?case by simp
next
  case (Cons p rest)
  from Cons.prems(2) have i: "i < length models" by simp
  with Cons.prems(3) have b: "models ! i < length h" by simp
  from Cons.prems(1) i b obtain h1 where
    h1: "h1 = h @ map (apply_params (h ! (models ! i))) (variants p)"
    and loop: "create_loop h1 (models @ [length h ..< length h1]) (Suc i) rest = (h', Inr res)"
    by (rule create_loop_round)
  let ?models1 = "models @ [length h ..< length h1]"
  have le: "length h \<le> length h1" using h1 by simp
  have bound: "Suc i + length rest \<le> length ?models1"
    using Cons.prems(2) by simp
  have valid: "\<forall>a\<in>set ?models1. a < length h1"
    using Cons.prems(3) le by auto
  from Cons.IH [OF loop bound valid]
  have h': "h' = h1 @ concat (map2 (\<lambda>b p. map (apply_params (h1 ! b)) (variants p))
                               (drop (Suc i) ?models1) rest)"
    and res: "res = ?models1 @ [length h1 ..< length h']"
    by simp_all
  have zip: "zip (drop (Suc i) ?models1) rest = zip (drop (Suc i) models) rest"
    using Cons.prems(2) by (simp add: zip_append_left)
  have same: "apply_params (h1 ! a) = apply_params (h ! a)"
    if "(a, q) \<in> set (zip (drop (Suc i) models) rest)" for a q
  proof -
    from that have "a \<in> set models" by (auto dest: set_zip_leftD in_set_dropD)
    with Cons.prems(3) h1 show ?thesis by (simp add: nth_append)
  qed
  have "map2 (\<lambda>b p. map (apply_params (h1 ! b)) (variants p)) (drop (Suc i) ?models1) rest =
        map2 (\<lambda>b p. map (apply_params (h ! b)) (variants p)) (drop (Suc i) models) rest"
    unfolding zip by (rule map_cong) (auto simp: same)
  with h' h1 have heap: "h' = h @ concat (map2 (\<lambda>b p. map (apply_params (h ! b)) (variants p))
                        (drop i models) (p # rest))"
    using i by (simp add: Cons_nth_drop_Suc [symmetric])
  have "length h1 \<le> length h'" using h' by simp
  with res le have "res = models @ [length h ..< length h']"
    by (simp add: upt_append_upt)
  with heap show ?case by simp
qed


lemma take_prefix_trans:
  "take (length a) b = a \<Longrightarrow> take (length b) c = b \<Longrightarrow> take (length a) c = a"
  by (metis append_eq_conv_conj length_take take_take)

lemma create_loop_prefix:
  "create_loop h models i items = (h', r) \<Longrightarrow>
     take (length h) h' = h \<and> (\<forall>res. r = Inr res \<longrightarrow> take (length models) res = models)"
proof (induction items arbitrary: h models i)
  case Nil
  then show ?case by auto
next
  case (Cons p rest)
  show ?case
  proof (cases "i < length models")
    case False
    with Cons.prems show ?thesis by auto
  next
    case True
    show ?thesis
    proof (cases p)
      case (PList ds)
      obtain h1 r1 where av: "append_variants h models (models ! i) ds = (h1, r1)"
        by (cases "append_variants h models (models ! i) ds")
      note pre = append_variants_prefix [OF av]
      show ?thesis
      proof (cases r1)
        case (Inl e)
        with Cons.prems True PList av pre show ?thesis by auto
      next
        case (Inr models1)
        with Cons.prems True PList av
        have "create_loop h1 models1 (Suc i) rest = (h', r)" by simp
        from Cons.IH [OF this] pre Inr show ?thesis
          by (auto intro: take_prefix_trans)
      qed
    next
      case (PDict d)
      obtain h1 r1 where smp: "set_model_params h (models ! i) (PDict d) = (h1, r1)"
        by (cases "set_model_params h (models ! i) (PDict d)")
      note pre = set_model_params_prefix [OF smp]
      show ?thesis
      proof (cases r1)
        case (Inl e)
        with Cons.prems True PDict smp pre show ?thesis by auto
      next
        case (Inr m)
        with Cons.prems True PDict smp
        have "create_loop h1 (models @ [m]) (Suc i) rest = (h', r)" by simp
        from Cons.IH [OF this] pre show ?thesis
          by (auto intro: take_prefix_trans [of models "models @ [m]"] take_prefix_trans)
      qed
    qed (use Cons.prems True in auto)
  qed
qed

lemma get_params_Inr: "get_params h a = Inr ps \<Longrightarrow> attrs_of (h ! a) = ps"
  by (cases "h ! a") (auto simp: get_params_def)

lemma seed_lookup:
  "map_of (attrs_of (apply_params obj
      (if ''n_jobs'' \<in> set (map fst (attrs_of obj))
       then [(''random_state'', PInt RANDOM_STATE), (''n_jobs'', PInt (- 1))]
       else [(''random_state'', PInt RANDOM_STATE)]))) ''random_state'' = Some (PInt 42) \<and>
   (''n_jobs'' \<in> set (map fst (attrs_of obj)) \<longrightarrow>
    map_of (attrs_of (apply_params obj
      (if ''n_jobs'' \<in> set (map fst (attrs_of obj))
       then [(''random_state'', PInt RANDOM_STATE), (''n_jobs'', PInt (- 1))]
       else [(''random_state'', PInt RANDOM_STATE)]))) ''n_jobs'' = Some (PInt (- 1)))"
  by (simp add: apply_params_def update_conv' RANDOM_STATE_def)

lemma init_models_ok:
  "init_models h base = (h1, Inr models) \<Longrightarrow>
     models = base \<and> length h1 = length h \<and>
     (\<forall>a. a \<notin> set base \<longrightarrow> h1 ! a = h ! a) \<and>
     (\<forall>a. map fst (attrs_of (h1 ! a)) = map fst (attrs_of (h ! a))) \<and>
     (\<forall>a\<in>set base. a < length h \<longrightarrow> seeded h h1 a)"
proof (induction base arbitrary: h models)
  case Nil
  then show ?case by simp
next
  case (Cons model rest)
  let ?kvs = "\<lambda>ps. if ''n_jobs'' \<in> set (map fst ps)
                   then [(''random_state'', PInt RANDOM_STATE), (''n_jobs'', PInt (- 1))]
                   else [(''random_state'', PInt RANDOM_STATE)]"
  from Cons.prems obtain ps h2 m ms where
    gp: "get_params h model = Inr ps"
    and sp: "set_params h model (?kvs ps) = (h2, Inr m)"
    and rest: "init_models h2 rest = (h1, Inr ms)"
    and models: "models = m # ms"
    by (auto split: sum.splits prod.splits)
  note ps = get_params_Inr [OF gp]
  from set_params_ok [OF sp] have m: "m = model"
    and h2: "h2 = h[model := apply_params (h ! model) (?kvs ps)]" by simp_all
  note frame = set_params_frame [OF sp]
  from Cons.IH [OF rest] have ih: "ms = rest" "length h1 = length h2"
    "\<forall>a. a \<notin> set rest \<longrightarrow> h1 ! a = h2 ! a"
    "\<forall>a. map fst (attrs_of (h1 ! a)) = map fst (attrs_of (h2 ! a))"
    "\<forall>a\<in>set rest. a < length h2 \<longrightarrow> seeded h2 h1 a"
    by blast+
  have "seeded h h1 a" if a: "a \<in> set (model # rest)" "a < length h" for a
  proof (cases "a \<in> set rest")
    case True
    with ih(5) a(2) frame(1) have "seeded h2 h1 a" by simp
    then show ?thesis by (simp add: seeded_def frame(4))
  next
    case False
    with a have am: "a = model" by simp
    with False ih(3) have "h1 ! a = h2 ! model" by simp
    also have "\<dots> = apply_params (h ! model) (?kvs ps)" using h2 a(2) am by simp
    finally show ?thesis
      using seed_lookup [of "h ! model"] ps am by (simp add: seeded_def)
  qed
  moreover have "\<forall>a. a \<notin> set (model # rest) \<longrightarrow> h1 ! a = h ! a"
    using ih(3) frame(2) by simp
  moreover have "\<forall>a. map fst (attrs_of (h1 ! a)) = map fst (attrs_of (h ! a))"
    using ih(4) frame(4) by simp
  ultimately show ?case using models m ih(1,2) frame(1) by simp
qed


lemma create_models_Some:
  assumes "create_models h base (Some items) = (h', Inr res)"
  obtains h1 where "init_models h base = (h1, Inr base)" "length h1 = length h"
    "create_loop h1 base 0 items = (h', Inr res)"
proof -
  from assms obtain h1 models where im: "init_models h base = (h1, Inr models)"
    and cl: "create_loop h1 models 0 items = (h', Inr res)"
    by (cases items) (auto simp: create_models_def split: prod.splits sum.splits)
  from init_models_ok [OF im] im cl that show ?thesis by auto
qed

text \<open>
  C8.  When \<open>create_models\<close> returns, every object of the caller's \<open>base_models\<close> has
  \<open>random_state\<close> 42, and \<open>n_jobs\<close> -1 if it had a parameter \<open>n_jobs\<close> before the
  call; the returned list begins with the addresses of \<open>base_models\<close> themselves.
\<close>

theorem create_models_in_place:
  assumes "create_models h base_models model_params = (h', Inr res)"
    and "\<forall>a\<in>set base_models. a < length h"
  shows "(\<forall>a\<in>set base_models.
            map_of (attrs_of (h' ! a)) ''random_state'' = Some (PInt 42) \<and>
            (''n_jobs'' \<in> set (map fst (attrs_of (h ! a))) \<longrightarrow>
               map_of (attrs_of (h' ! a)) ''n_jobs'' = Some (PInt (- 1)))) \<and>
         take (length base_models) res = base_models"
proof -
  from assms(1) obtain h1 models where im: "init_models h base_models = (h1, Inr models)"
    and after: "(h', res) = (h1, models) \<or>
                (\<exists>items. create_loop h1 models 0 items = (h', Inr res))"
    by (auto simp: create_models_def split: prod.splits sum.splits option.splits if_splits)
  from init_models_ok [OF im] have models: "models = base_models"
    and len: "length h1 = length h"
    and seeded: "\<forall>a\<in>set base_models. a < length h \<longrightarrow> seeded h h1 a"
    by blast+
  from after have pre: "take (length h1) h' = h1 \<and> take (length models) res = models"
    by (auto dest: create_loop_prefix)
  have "h' ! a = h1 ! a" if "a \<in> set base_models" for a
    using pre that assms(2) len by (metis nth_take)
  with seeded assms(2) pre models show ?thesis
    by (simp add: seeded_def split: if_splits)
qed

lemma create_models_example:
  "create_models [PObj ''RandomForestClassifier''
        [(''n_estimators'', PInt 100), (''random_state'', PNone), (''n_jobs'', PNone)]] [0]
     (Some [PDict [(''n_estimators'', PInt 200)]]) =
   ([PObj ''RandomForestClassifier''
       [(''n_estimators'', PInt 100), (''random_state'', PInt 42), (''n_jobs'', PInt (- 1))],
     PObj ''RandomForestClassifier''
       [(''n_estimators'', PInt 200), (''random_state'', PInt 42), (''n_jobs'', PInt (- 1))]],
    Inr [0, 1])"
  by (simp add: create_defs)

theorem create_models_in_place_witness:
  "map_of (attrs_of ([PObj ''RandomForestClassifier''
       [(''n_estimators'', PInt 100), (''random_state'', PInt 42), (''n_jobs'', PInt (- 1))],
     PObj ''RandomForestClassifier''
       [(''n_estimators'', PInt 200), (''random_state'', PInt 42), (''n_jobs'', PInt (- 1))]] ! 0))
     ''random_state'' = Some (PInt 42) \<and>
   map_of (attrs_of ([PObj ''RandomForestClassifier''
       [(''n_estimators'', PInt 100), (''random_state'', PInt 42), (''n_jobs'', PInt (- 1))],
     PObj ''RandomForestClassifier''
       [(''n_estimators'', PInt 200), (''random_state'', PInt 42), (''n_jobs'', PInt (- 1))]] ! 0))
     ''n_jobs'' = Some (PInt (- 1)) \<and>
   take (length [0::nat]) [0, 1::nat] = [0]"
proof -
  have valid: "\<forall>a\<in>set [0::nat]. a < length [PObj ''RandomForestClassifier''
        [(''n_estimators'', PInt 100), (''random_state'', PNone), (''n_jobs'', PNone)]]"
    by simp
  from create_models_in_place [OF create_models_example valid]
  show ?thesis by simp
qed

subsection \<open>\<open>create_models\<close>: how many models, and which\<close>

lemma map2_concat_specs:
  "concat (map2 (\<lambda>b p. map (f b) (variants p)) bs ps) =
     map (\<lambda>(b, d). f b d) (variant_specs bs ps)"
  unfolding variant_specs_def
  by (induction bs ps rule: list_induct2') (auto simp: comp_def)

lemma variant_specs_length:
  "length ps = length bs \<Longrightarrow>
     length (variant_specs bs ps) = (\<Sum>p\<leftarrow>ps. length (variants p))"
  unfolding variant_specs_def
  by (induction bs ps rule: list_induct2') auto

lemma variant_specs_fst: "(b, d) \<in> set (variant_specs bs ps) \<Longrightarrow> b \<in> set bs"
  unfolding variant_specs_def
  by (induction bs ps rule: list_induct2') auto

text \<open>
  C1, as the code has it.  When \<open>create_models\<close> returns for base models and a list of
  parameter specifications of the same length, the returned list has
  \<open>len(base_models)\<close> plus the total number of parameter dicts elements: the base
  models come first (C8), and the \<open>j\<close>-th model after them is the \<open>j\<close>-th parameter
  dict applied to a copy of its base model.
\<close>

theorem create_models_length:
  assumes "create_models h base_models (Some model_params) = (h', Inr res)"
    and "length model_params = length base_models"
    and "\<forall>a\<in>set base_models. a < length h"
  shows "length res = length base_models + (\<Sum>p\<leftarrow>model_params. length (variants p)) \<and>
         length (variant_specs base_models model_params) =
           (\<Sum>p\<leftarrow>model_params. length (variants p)) \<and>
         (\<forall>j<length (variant_specs base_models model_params).
            h' ! (res ! (length base_models + j)) =
              apply_params (h' ! fst (variant_specs base_models model_params ! j))
                (snd (variant_specs base_models model_params ! j)))"
proof -
  let ?specs = "variant_specs base_models model_params"
  from assms(1) obtain h1 where len: "length h1 = length h"
    and loop: "create_loop h1 base_models 0 model_params = (h', Inr res)"
    by (rule create_models_Some)
  from assms(3) len have valid: "\<forall>a\<in>set base_models. a < length h1" by simp
  from create_loop_ok [OF loop _ valid] assms(2)
  have h': "h' = h1 @ map (\<lambda>(b, d). apply_params (h1 ! b) d) ?specs"
    and res: "res = base_models @ [length h1 ..< length h']"
    by (simp_all add: map2_concat_specs)
  have n: "length ?specs = (\<Sum>p\<leftarrow>model_params. length (variants p))"
    using assms(2) by (rule variant_specs_length)
  from h' have lh': "length h' = length h1 + length ?specs" by simp
  with res n have "length res = length base_models + (\<Sum>p\<leftarrow>model_params. length (variants p))"
    by simp
  moreover have "h' ! (res ! (length base_models + j)) =
                   apply_params (h' ! fst (?specs ! j)) (snd (?specs ! j))"
    if j: "j < length ?specs" for j
  proof -
    obtain b d where bd: "?specs ! j = (b, d)" by (cases "?specs ! j")
    with j have "(b, d) \<in> set ?specs" by (metis nth_mem)
    then have "b \<in> set base_models" by (rule variant_specs_fst)
    with valid have b: "b < length h1" by simp
    from res j lh' have "res ! (length base_models + j) = length h1 + j"
      by (simp add: nth_append)
    moreover from h' j bd have "h' ! (length h1 + j) = apply_params (h1 ! b) d"
      by simp
    moreover from h' b have "h' ! b = h1 ! b" by (simp add: nth_append)
    ultimately show ?thesis using bd by simp
  qed
  ultimately show ?thesis using n by blast
qed

lemma fold_update_other:
  "k \<notin> fst ` set d \<Longrightarrow> map_of (fold (\<lambda>(k, v). AList.update k v) d ps) k = map_of ps k"
  by (induction d arbitrary: ps) (auto simp: update_conv')

lemma apply_params_lookup:
  "distinct (map fst d) \<Longrightarrow> (k, v) \<in> set d \<Longrightarrow>
     map_of (attrs_of (apply_params obj d)) k = Some v"
proof -
  have "distinct (map fst d) \<Longrightarrow> (k, v) \<in> set d \<Longrightarrow>
          map_of (fold (\<lambda>(k, v). AList.update k v) d ps) k = Some v" for ps
  proof (induction d arbitrary: ps)
    case Nil
    then show ?case by simp
  next
    case (Cons kv d)
    show ?case
    proof (cases "(k, v) \<in> set d")
      case True
      with Cons show ?thesis by (cases kv) auto
    next
      case False
      with Cons.prems have "kv = (k, v)" "k \<notin> fst ` set d" by force+
      then show ?thesis by (simp add: fold_update_other update_conv')
    qed
  qed
  then show "distinct (map fst d) \<Longrightarrow> (k, v) \<in> set d \<Longrightarrow>
     map_of (attrs_of (apply_params obj d)) k = Some v"
    by (simp add: apply_params_def)
qed


theorem create_models_length_witness:
  "length [0, 1::nat] = length [0::nat] + 1 \<and>
   [PObj ''RandomForestClassifier''
       [(''n_estimators'', PInt 100), (''random_state'', PInt 42), (''n_jobs'', PInt (- 1))],
     PObj ''RandomForestClassifier''
       [(''n_estimators'', PInt 200), (''random_state'', PInt 42), (''n_jobs'', PInt (- 1))]] ! ([0, 1] ! 1) =
     apply_params
       ([PObj ''RandomForestClassifier''
       [(''n_estimators'', PInt 100), (''random_state'', PInt 42), (''n_jobs'', PInt (- 1))],
         PObj ''RandomForestClassifier''
       [(''n_estimators'', PInt 200), (''random_state'', PInt 42), (''n_jobs'', PInt (- 1))]] ! 0)
       [(''n_estimators'', PInt 200)]"
proof -
  have len: "length [PDict [(''n_estimators'', PInt 200)]] = length [0::nat]"
    by simp
  have valid: "\<forall>a\<in>set [0::nat]. a < length [PObj ''RandomForestClassifier''
        [(''n_estimators'', PInt 100), (''random_state'', PNone), (''n_jobs'', PNone)]]"
    by simp
  from create_models_length [OF create_models_example len valid]
  show ?thesis by (simp add: variant_specs_def)
qed

text \<open>
  The statement of C1 itself fails: one base model and one parameter dict give a list
  of two models, the base model and its variant, not of one.
\<close>

theorem create_models_length_counterexample:
  "snd (create_models [PObj ''RandomForestClassifier''
        [(''n_estimators'', PInt 100), (''random_state'', PNone), (''n_jobs'', PNone)]] [0]
          (Some [PDict [(''n_estimators'', PInt 200)]])) = Inr [0, 1] \<and>
   length [0, 1::nat] \<noteq> length [PDict [(''n_estimators'', PInt 200)]]"
  by (simp add: create_defs)

subsection \<open>Where errors come from\<close>

lemma lib_not_repo [simp]: "lib r \<noteq> Inl (Repo c m)"
  by (auto simp: lib_Inl_iff)

lemma lib_err_not_repo [simp]: "lib_err r \<noteq> Some (Repo c m)"
  by (auto simp: lib_err_Some_iff)

lemma set_params_attrs_not_repo [simp]: "set_params_attrs ps kvs \<noteq> (ps', Some (Repo c m))"
  by (induction kvs arbitrary: ps) (auto split: if_splits)

lemma set_params_not_repo [simp]: "set_params h a kvs \<noteq> (h', Inl (Repo c m))"
  by (cases "h ! a") (auto simp: set_params_def split: prod.splits option.splits)

lemma set_model_params_not_repo [simp]:
  "set_model_params h model p \<noteq> (h', Inl (Repo c m))"
proof
  assume "set_model_params h model p = (h', Inl (Repo c m))"
  then show False
  proof (cases rule: set_model_params_cases)
    case (dict d r2)
    then show ?thesis by (cases r2) auto
  next
    case other
    then show ?thesis by simp
  qed
qed

lemma append_variants_not_repo [simp]:
  "append_variants h models model ds \<noteq> (h', Inl (Repo c m))"
  by (induction ds arbitrary: h models) (auto split: prod.splits sum.splits)

lemma init_models_not_repo [simp]: "init_models h base \<noteq> (h', Inl (Repo c m))"
proof (induction base arbitrary: h)
  case Nil
  then show ?case by simp
next
  case (Cons model rest)
  then show ?case
    by (cases "h ! model") (auto simp: get_params_def split: prod.splits sum.splits)
qed

lemma create_loop_repo:
  "create_loop h models i items = (h', Inl (Repo c m)) \<Longrightarrow>
     c = ''ValueError'' \<and> m = invalid_format \<and> (\<exists>p\<in>set items. \<not> is_list p \<and> \<not> is_dict p)"
proof (induction items arbitrary: h models i)
  case Nil
  then show ?case by simp
next
  case (Cons p rest)
  from Cons.prems have i: "i < length models" by (auto split: if_splits)
  show ?case
  proof (cases p)
    case (PList ds)
    with Cons.prems i obtain h1 models1 where
      "create_loop h1 models1 (Suc i) rest = (h', Inl (Repo c m))"
      by (auto split: prod.splits sum.splits)
    from Cons.IH [OF this] show ?thesis by auto
  next
    case (PDict d)
    with Cons.prems i obtain h1 models1 where
      "create_loop h1 models1 (Suc i) rest = (h', Inl (Repo c m))"
      by (auto split: prod.splits sum.splits)
    from Cons.IH [OF this] show ?thesis by auto
  qed (use Cons.prems i in auto)
qed

lemma create_models_repo:
  assumes "create_models h base mp = (h', Inl (Repo c m))"
  shows "c = ''ValueError'' \<and> m = invalid_format \<and>
         (\<exists>items. mp = Some items \<and> (\<exists>p\<in>set items. \<not> is_list p \<and> \<not> is_dict p))"
proof -
  from assms obtain h1 models items where "mp = Some items"
    and "create_loop h1 models 0 items = (h', Inl (Repo c m))"
    by (auto simp: create_models_def split: prod.splits sum.splits option.splits if_splits)
  with create_loop_repo [OF this(2)] show ?thesis by simp
qed

lemma cv_scores_not_repo [simp]: "cv_scores ext p X y n ps \<noteq> Inl (Repo c m)"
  by (auto simp: cv_scores_def Let_def split: sum.splits)

lemma model_info_not_repo [simp]: "model_info ext pts model \<noteq> Inl (Repo c m)"
  by (auto simp: model_info_def getattr_def split: sum.splits if_splits option.splits)

lemma prepare_models_info_not_repo [simp]:
  "prepare_models_info ext models pts \<noteq> Inl (Repo c m)"
  by (induction models) (auto split: sum.splits prod.splits)

lemma create_preprocessor_not_repo [simp]: "create_preprocessor ext X \<noteq> Inl (Repo c m)"
  by (auto simp: create_preprocessor_def split: sum.splits)

lemma imputation_inner_not_repo [simp]:
  "imputation_inner ext X y num cat model name params pre results \<noteq> Inl (Repo c m)"
  by (induction pre arbitrary: results) (auto split: sum.splits if_splits)

lemma imputation_outer_not_repo [simp]:
  "imputation_outer ext X y num cat triples pre results \<noteq> Inl (Repo c m)"
  by (induction triples arbitrary: results) (auto split: sum.splits)

lemma pd_DataFrame_not_repo [simp]: "pd_DataFrame ext v \<noteq> Inl (Repo c m)"
  by (cases v) (auto simp: pd_DataFrame_def split: if_splits)

lemma frames_of_not_repo [simp]: "frames_of ext args \<noteq> Inl (Repo c m)"
  by (induction args) (auto split: sum.splits)

lemma create_results_dataframe_not_repo [simp]:
  "create_results_dataframe ext args \<noteq> Inl (Repo c m)"
  by (auto simp: create_results_dataframe_def split: sum.splits if_splits)

lemma imputation_test_body_not_repo [simp]:
  "imputation_test_body ext X y models pre \<noteq> Inl (Repo c m)"
  by (auto simp: imputation_test_body_def split: sum.splits prod.splits)

lemma truthy_not_repo [simp]: "truthy ext v \<noteq> Inl (Repo c m)"
  by (cases v) auto

lemma truthy_and_not_repo [simp]: "truthy_and ext a b \<noteq> Inl (Repo c m)"
  by (auto simp: truthy_and_def split: sum.splits if_splits)

lemma call_to_csv_not_repo [simp]: "call_to_csv ext r p \<noteq> (evs, Some (Repo c m))"
  by (auto simp: call_to_csv_def split: if_splits option.splits)

lemma save_result_data_not_repo:
  assumes "\<And>evs0. func args kwargs \<noteq> (evs0, Inl (Repo c m))"
  shows "save_result_data ext func args kwargs \<noteq> (evs, Inl (Repo c m))"
proof (cases "func args kwargs")
  case (Pair evs0 r0)
  show ?thesis
  proof (cases r0)
    case (Inl e0)
    with Pair assms show ?thesis by (auto simp: save_result_data_def)
  next
    case (Inr rv)
    with Pair show ?thesis
      by (auto simp: save_result_data_def Let_def
               split: prod.splits sum.splits option.splits if_splits)
  qed
qed

lemma best_time_not_repo [simp]: "best_time ext opt \<noteq> Inl (Repo c m)"
  by (auto simp: best_time_def Let_def split: if_splits list.splits)

lemma py_index_not_repo [simp]: "py_index xs i \<noteq> Inl (Repo c m)"
  by (auto simp: py_index_def split: if_splits)

lemma randomized_search_loop_not_repo [simp]:
  "randomized_search_loop ext X y pre n folder mgs evs0 res0 ts0 \<noteq> (evs, Inl (Repo c m))"
proof (induction mgs arbitrary: evs0 res0 ts0)
  case Nil
  then show ?case by simp
next
  case (Cons mg mgs)
  obtain model grid where mg: "mg = (model, grid)" by (cases mg)
  show ?case
    using Cons.IH unfolding mg
    by (auto simp: Let_def split: sum.splits option.splits)
qed

lemma randomized_search_body_not_repo [simp]:
  "randomized_search_body ext X y models grids pre n folder \<noteq> (evs, Inl (Repo c m))"
  by (auto simp: randomized_search_body_def split: prod.splits sum.splits)

lemma load_loop_not_repo [simp]:
  "load_loop ext folder cols names results \<noteq> Inl (Repo c m)"
  by (induction names arbitrary: results) (auto split: sum.splits if_splits)

lemma load_results_from_folder_not_repo [simp]:
  "load_results_from_folder ext folder cols \<noteq> Inl (Repo c m)"
  by (auto simp: load_results_from_folder_def split: sum.splits)

lemma process_fold_not_repo [simp]:
  "process_fold ext h tr te X y est \<noteq> (h', Inl (Repo c m))"
  by (auto simp: process_fold_def deepcopy_def Let_def split: sum.splits prod.splits)

lemma imputation_test_not_repo [simp]:
  "imputation_test ext X y models pre rest kwargs \<noteq> (evs, Inl (Repo c m))"
  unfolding imputation_test_def
  by (rule save_result_data_not_repo) (auto split: if_splits)

lemma randomized_search_not_repo [simp]:
  "randomized_search ext X y models grids pre n folder rest kwargs \<noteq> (evs, Inl (Repo c m))"
  unfolding randomized_search_def
  by (rule save_result_data_not_repo) (auto split: if_splits)

lemma snd_neq: "(\<And>a. p \<noteq> (a, b)) \<Longrightarrow> snd p \<noteq> b"
  by (cases p) auto

text \<open>
  C4, as the code has it.  \<open>create_models\<close> constructs and raises one exception of its
  own, the \<^verbatim>\<open>ValueError\<close> for an element of \<open>model_params\<close> that is neither a list nor
  a dict, and no other; \<open>cv_scores\<close>, \<open>create_results_dataframe\<close>, \<open>imputation_test\<close>,
  \<open>randomized_search\<close>, \<open>load_results_from_folder\<close> and \<open>process_fold\<close> raise no
  exception of their own: their errors come from a library call or from the
  interpreter.
\<close>

theorem repository_errors:
  "(create_models h base_models model_params = (h', Inl (Repo c m)) \<longrightarrow>
      c = ''ValueError'' \<and> m = invalid_format \<and>
      (\<exists>items. model_params = Some items \<and>
         (\<exists>p\<in>set items. \<not> is_list p \<and> \<not> is_dict p))) \<and>
   cv_scores ext pipeline X y model_name params \<noteq> Inl (Repo c m) \<and>
   create_results_dataframe ext args \<noteq> Inl (Repo c m) \<and>
   snd (imputation_test ext X y models preprocessors rest kwargs) \<noteq> Inl (Repo c m) \<and>
   snd (randomized_search ext X y models grids steps n_iter folder rest kwargs) \<noteq>
     Inl (Repo c m) \<and>
   load_results_from_folder ext folder columns \<noteq> Inl (Repo c m) \<and>
   snd (process_fold ext h train_idx test_idx Xa ya estimator) \<noteq> Inl (Repo c m)"
  using create_models_repo [of h base_models model_params h' c m]
  by (simp add: snd_neq)

theorem repository_errors_witness:
  "create_models [PObj ''RandomForestClassifier''
        [(''n_estimators'', PInt 100), (''random_state'', PNone), (''n_jobs'', PNone)]] [0] (Some [PInt 5]) =
     ([PObj ''RandomForestClassifier''
       [(''n_estimators'', PInt 100), (''random_state'', PInt 42), (''n_jobs'', PInt (- 1))]],
      Inl (Repo ''ValueError'' invalid_format)) \<and>
   (\<exists>items. Some [PInt 5] = Some items \<and> (\<exists>p\<in>set items. \<not> is_list p \<and> \<not> is_dict p)) \<and>
   cv_scores toy_lib (PStr ''pipeline'') PNone PNone ''LogisticRegression'' [] \<noteq>
     Inl (Repo ''ValueError'' invalid_format)"
proof -
  have run: "create_models [PObj ''RandomForestClassifier''
        [(''n_estimators'', PInt 100), (''random_state'', PNone), (''n_jobs'', PNone)]] [0] (Some [PInt 5]) =
     ([PObj ''RandomForestClassifier''
       [(''n_estimators'', PInt 100), (''random_state'', PInt 42), (''n_jobs'', PInt (- 1))]],
      Inl (Repo ''ValueError'' invalid_format))"
    by (simp add: create_defs)
  from repository_errors
    [of "[PObj ''RandomForestClassifier''
        [(''n_estimators'', PInt 100), (''random_state'', PNone), (''n_jobs'', PNone)]]" "[0]" "Some [PInt 5]"
       "[PObj ''RandomForestClassifier''
       [(''n_estimators'', PInt 100), (''random_state'', PInt 42), (''n_jobs'', PInt (- 1))]]"
       "''ValueError''" invalid_format toy_lib "PStr ''pipeline''" PNone PNone
       "''LogisticRegression''" "[]"] run
  show ?thesis by simp
qed

text \<open>
  The statement of C4 itself fails: given a \<open>model_params\<close> element that is neither a
  list nor a dict, \<open>create_models\<close> raises a \<^verbatim>\<open>ValueError\<close> that it constructs itself.
\<close>

theorem repository_errors_counterexample:
  "snd (create_models [PObj ''RandomForestClassifier''
        [(''n_estimators'', PInt 100), (''random_state'', PNone), (''n_jobs'', PNone)]] [0] (Some [PInt 5])) =
     Inl (Repo ''ValueError''
            (''Invalid format in model_params list. Each element '' @
             ''should be either a dictionary or a list of dictionaries.''))"
  by (simp add: create_defs invalid_format_def)

end
